theory Spec2Isabelle
  imports Main "HOL-Library.Sublist"
begin

section \<open>Data model (types.ts)\<close>

text \<open>
  The interfaces of \<^verbatim>\<open>types.ts\<close>. Field names carry a prefix naming their
  interface, since several interfaces share the field names \<^verbatim>\<open>id\<close>, \<^verbatim>\<open>title\<close> and
  \<^verbatim>\<open>type\<close>. An optional field (\<^verbatim>\<open>savedItems?\<close>, \<^verbatim>\<open>children?\<close>, \<^verbatim>\<open>contentData?\<close>)
  is an \<open>option\<close>; \<^verbatim>\<open>string | null\<close> is a \<open>string option\<close>.
\<close>

datatype SourceType = SrcText | SrcUrl

datatype ContentType =
  TEXT | QUIZ | FLASHCARDS | PODCAST | ERROR | SUMMARY | FAQ | TIMELINE | IDEAS | CRITIQUE
  | MIND_MAP | DEBATE

record Source =
  src_id :: string
  src_type :: SourceType
  src_title :: string
  src_content :: string

record Flashcard =
  fc_id :: string
  fc_term :: string
  fc_definition :: string

record QuizQuestion =
  question :: string
  options :: "string list"
  correctAnswer :: string

record FAQItem =
  faq_question :: string
  faq_answer :: string

record TimelineEvent =
  ev_date :: string
  ev_event :: string
  ev_description :: string

datatype MindMapNode = MindMapNode (topic: string) (children: "MindMapNode list option")

record Viewpoint =
  vp_title :: string
  vp_arguments :: "string list"

record Debate =
  viewpointA :: Viewpoint
  viewpointB :: Viewpoint

text \<open>
  A value as \<^verbatim>\<open>JSON.parse\<close> returns it. An object is its list of properties; a number is
  kept as an integer, since no function of the program reads one.
\<close>

datatype Json =
  JNull | JBool bool | JNumber int | JString string | JArray "Json list"
  | JObject "(string \<times> Json) list"

text \<open>
  The union type of \<^verbatim>\<open>ChatMessage.contentData\<close>:
  \<^verbatim>\<open>QuizQuestion[] | Flashcard[] | { script: string } | string | FAQItem[] | TimelineEvent[] | MindMapNode | Debate\<close>.
  The types are erased when the program runs, and a value that reaches the field through an
  unchecked cast need not be of the union: \<open>JsonData\<close> holds such a value.
\<close>

datatype ContentData =
  QuizData "QuizQuestion list"
  | FlashcardData "Flashcard list"
  | ScriptData string
  | StringData string
  | FAQData "FAQItem list"
  | TimelineData "TimelineEvent list"
  | MindMapData MindMapNode
  | DebateData Debate
  | JsonData Json

datatype Role = User | Model

record ChatMessage =
  msg_id :: string
  msg_role :: Role
  msg_text :: string
  msg_contentType :: ContentType
  msg_contentData :: "ContentData option"

record SavedItem =
  si_id :: string
  si_notebookId :: string
  si_title :: string
  si_type :: ContentType
  si_contentData :: ContentData
  si_createdAt :: string

record Notebook =
  nb_id :: string
  nb_title :: string
  nb_sources :: "Source list"
  nb_createdAt :: string
  nb_savedItems :: "SavedItem list option"

section \<open>Template literals over clock readings\<close>

text \<open>
  Every identifier of the application is a template literal over \<^verbatim>\<open>Date.now()\<close>, such as
  \<^verbatim>\<open>`source_${Date.now()}`\<close>. A clock reading is a natural number of milliseconds, and
  \<open>show_nat\<close> is its decimal rendering inside the template.
\<close>

definition digit_char :: "nat \<Rightarrow> char" where
  "digit_char d = ''0123456789'' ! d"

fun show_nat :: "nat \<Rightarrow> string" where
  "show_nat n = (if n < 10 then [digit_char n] else show_nat (n div 10) @ [digit_char (n mod 10)])"

declare show_nat.simps [simp del]

section \<open>Application state and the notebook handlers (App.tsx)\<close>

text \<open>
  The state hooks of \<^verbatim>\<open>App\<close>. \<^verbatim>\<open>chatHistory\<close> is a
  \<^verbatim>\<open>Record<string, ChatMessage[]>\<close>, a map from notebook ids to logs. Each handler is a
  function from the state it is called in to the state its setter calls leave behind:
  a handler reads the state of the render it was created in, and React renders again
  between two user events, so for a handler that a user event calls directly
  (\<^verbatim>\<open>handleCreateNotebook\<close>, \<^verbatim>\<open>handleDeleteNotebook\<close>) the values it closes over are those
  of the current state. \<^verbatim>\<open>handleAddSourceToNotebook\<close> is different: the form that calls it
  does so after an \<^verbatim>\<open>await\<close> (of the file parser or of the URL fetch), with the handler of
  the render in which the form was submitted, and the handler writes back a list computed
  from the \<^verbatim>\<open>notebooks\<close> of that render, not from the current one. So it takes the
  \<^verbatim>\<open>notebooks\<close> it closes over as its first argument. The two saved-item handlers use the
  functional form of the setter and read the current list.
  The persistence of the hooks (\<^verbatim>\<open>useLocalStorage\<close>) is outside the model.
\<close>

record AppState =
  notebooks :: "Notebook list"
  activeNotebookId :: "string option"
  chatHistory :: "string \<rightharpoonup> ChatMessage list"
  isLoading :: bool
  isCreatingNotebook :: bool
  isDarkMode :: bool

definition activeNotebook :: "AppState \<Rightarrow> Notebook option" where
  \<comment> \<open>\<^verbatim>\<open>notebooks.find(n => n.id === activeNotebookId) || null\<close>\<close>
  "activeNotebook s = find (\<lambda>n. Some (nb_id n) = activeNotebookId s) (notebooks s)"

definition activeChatHistory :: "AppState \<Rightarrow> ChatMessage list" where
  \<comment> \<open>\<^verbatim>\<open>activeNotebookId ? chatHistory[activeNotebookId] || [] : []\<close>; the empty string is falsy\<close>
  "activeChatHistory s =
     (case activeNotebookId s of
        None \<Rightarrow> []
      | Some i \<Rightarrow> if i = [] then [] else (case chatHistory s i of None \<Rightarrow> [] | Some l \<Rightarrow> l))"

definition ensureActiveEffect :: "AppState \<Rightarrow> AppState" where
  \<comment> \<open>the effect \<^verbatim>\<open>if (!activeNotebookId && notebooks.length > 0) setActiveNotebookId(notebooks[0].id)\<close>\<close>
  "ensureActiveEffect s =
     (if (activeNotebookId s = None \<or> activeNotebookId s = Some []) \<and> length (notebooks s) > 0
      then (case notebooks s of [] \<Rightarrow> s | n # _ \<Rightarrow> s\<lparr>activeNotebookId := Some (nb_id n)\<rparr>)
      else s)"

definition handleCreateNotebook :: "string \<Rightarrow> nat \<Rightarrow> string \<Rightarrow> AppState \<Rightarrow> AppState" where
  \<comment> \<open>\<open>now\<close> is \<^verbatim>\<open>Date.now()\<close>, \<open>stamp\<close> is \<^verbatim>\<open>new Date().toISOString()\<close>\<close>
  "handleCreateNotebook title now stamp s =
     (let newNotebook = \<lparr>nb_id = ''notebook_'' @ show_nat now, nb_title = title, nb_sources = [],
                          nb_createdAt = stamp, nb_savedItems = Some []\<rparr>
      in s\<lparr>notebooks := notebooks s @ [newNotebook],
            chatHistory := (chatHistory s)(nb_id newNotebook \<mapsto> []),
            activeNotebookId := Some (nb_id newNotebook),
            isCreatingNotebook := False\<rparr>)"

definition handleDeleteNotebook :: "string \<Rightarrow> AppState \<Rightarrow> AppState" where
  "handleDeleteNotebook ident s =
     (let newNotebooks = filter (\<lambda>n. nb_id n \<noteq> ident) (notebooks s)
      in s\<lparr>notebooks := newNotebooks,
            chatHistory := (chatHistory s)(ident := None),
            activeNotebookId :=
              (if activeNotebookId s = Some ident
               then (case newNotebooks of [] \<Rightarrow> None | n # _ \<Rightarrow> Some (nb_id n))
               else activeNotebookId s)\<rparr>)"

definition newSource :: "string \<Rightarrow> string \<Rightarrow> SourceType \<Rightarrow> nat \<Rightarrow> Source" where
  "newSource title content ty now =
     \<lparr>src_id = ''source_'' @ show_nat now, src_type = ty, src_title = title, src_content = content\<rparr>"

definition handleAddSourceToNotebook ::
  "Notebook list \<Rightarrow> string \<Rightarrow> string \<Rightarrow> string \<Rightarrow> SourceType \<Rightarrow> nat \<Rightarrow> AppState \<Rightarrow> AppState"
  where
  \<comment> \<open>\<open>rendered\<close> is the \<^verbatim>\<open>notebooks\<close> of the render that created the handler:
      \<^verbatim>\<open>setNotebooks(notebooks.map(...))\<close>\<close>
  "handleAddSourceToNotebook rendered notebookId title content ty now s =
     s\<lparr>notebooks :=
         map (\<lambda>n. if nb_id n = notebookId
                  then n\<lparr>nb_sources := nb_sources n @ [newSource title content ty now]\<rparr>
                  else n)
             rendered\<rparr>"

record ItemData =
  item_type :: ContentType
  item_contentData :: ContentData
  item_title :: string

definition savedItemsOf :: "Notebook \<Rightarrow> SavedItem list" where
  \<comment> \<open>\<^verbatim>\<open>n.savedItems || []\<close>\<close>
  "savedItemsOf n = (case nb_savedItems n of None \<Rightarrow> [] | Some l \<Rightarrow> l)"

definition newItem :: "string \<Rightarrow> ItemData \<Rightarrow> nat \<Rightarrow> string \<Rightarrow> SavedItem" where
  "newItem notebookId itemData now stamp =
     \<lparr>si_id = ''saved_'' @ show_nat now, si_notebookId = notebookId, si_title = item_title itemData,
      si_type = item_type itemData, si_contentData = item_contentData itemData,
      si_createdAt = stamp\<rparr>"

definition handleSaveItemToNotebook ::
  "string \<Rightarrow> ItemData \<Rightarrow> nat \<Rightarrow> string \<Rightarrow> AppState \<Rightarrow> AppState" where
  "handleSaveItemToNotebook notebookId itemData now stamp s =
     s\<lparr>notebooks :=
         map (\<lambda>n. if nb_id n = notebookId
                  then n\<lparr>nb_savedItems := Some (savedItemsOf n @ [newItem notebookId itemData now stamp])\<rparr>
                  else n)
             (notebooks s)\<rparr>"

definition handleDeleteSavedItem :: "string \<Rightarrow> string \<Rightarrow> AppState \<Rightarrow> AppState" where
  "handleDeleteSavedItem notebookId itemId s =
     s\<lparr>notebooks :=
         map (\<lambda>n. if nb_id n = notebookId
                  then n\<lparr>nb_savedItems := Some (filter (\<lambda>item. si_id item \<noteq> itemId) (savedItemsOf n))\<rparr>
                  else n)
             (notebooks s)\<rparr>"

section \<open>The generation service boundary (geminiService.ts)\<close>

text \<open>
  Each exported function of the service issues one request to the external model and
  returns a promise. \<^verbatim>\<open>generateTextContent\<close> resolves to \<^verbatim>\<open>response.text\<close>;
  \<^verbatim>\<open>generateJsonContent\<close> resolves to \<^verbatim>\<open>JSON.parse(jsonText) as T\<close>, a cast with no
  check of the parsed value, and throws a fresh \<^verbatim>\<open>Error\<close> when the text is empty or does
  not parse. The external model is not part of the program, so a service is given by what
  each of its promises settles to: \<open>Inl\<close> a rejection, \<open>Inr\<close> the resolved value. The value
  that \<^verbatim>\<open>generateJsonContent\<close> resolves to is either of the type \<open>T\<close> that the cast declares
  (\<open>Declared\<close>) or any other parsed value, which the cast lets through (\<open>Other\<close>).
\<close>

datatype Failure = BackendFailure | InvalidFormatFailure | TypeError | UnexpectedFailure string

datatype 'a Parsed = Declared 'a | Other Json

record RawFlashcard =
  raw_term :: string
  raw_definition :: string

record GeminiService =
  askAboutSource :: "Source list \<Rightarrow> string \<Rightarrow> Failure + string"
  generateSummary :: "Source list \<Rightarrow> Failure + string"
  generateQuiz :: "Source list \<Rightarrow> Failure + QuizQuestion list Parsed"
  generateFlashcards :: "Source list \<Rightarrow> Failure + RawFlashcard list Parsed"
  generateFAQ :: "Source list \<Rightarrow> Failure + FAQItem list Parsed"
  generateTimeline :: "Source list \<Rightarrow> Failure + TimelineEvent list Parsed"
  generatePodcastScript :: "Source list \<Rightarrow> Failure + string"
  generateIdeas :: "Source list \<Rightarrow> Failure + string"
  generateCritique :: "Source list \<Rightarrow> Failure + string"
  generateMindMap :: "Source list \<Rightarrow> Failure + MindMapNode Parsed"
  generateDebate :: "Source list \<Rightarrow> Failure + Debate Parsed"

section \<open>The orchestrator: handleSendMessage (App.tsx)\<close>

datatype Intent =
  Chat | Quiz | Flashcards | Podcast | Summary | Faq | Timeline | Ideas | Critique | Mindmap
  | Debate

definition updateChat :: "string \<Rightarrow> ChatMessage \<Rightarrow> AppState \<Rightarrow> AppState" where
  \<comment> \<open>\<^verbatim>\<open>setChatHistory(prev => ({...prev, [notebookId]: [...(prev[notebookId] || []), message]}))\<close>\<close>
  "updateChat notebookId message s =
     s\<lparr>chatHistory :=
         (chatHistory s)(notebookId \<mapsto>
            (case chatHistory s notebookId of None \<Rightarrow> [] | Some l \<Rightarrow> l) @ [message])\<rparr>"

text \<open>
  \<^verbatim>\<open>handleSendMessage\<close> is an async function with one suspension point, the \<^verbatim>\<open>await\<close> of
  the service call. It is modelled in the three pieces that the suspension separates:
  \<^item> \<open>handleSendMessage_begin\<close>: the guard, \<^verbatim>\<open>setIsLoading(true)\<close>, the user message, and
    the values the closure keeps across the \<^verbatim>\<open>await\<close> (a \<open>Pending\<close> request), in the
    state in which the service call is issued; \<open>None\<close> when the guard returns early;
  \<^item> \<open>handleSendMessage_call\<close>: the \<^verbatim>\<open>switch\<close>, which awaits one service function and
    builds the response message, or propagates the rejection to the \<^verbatim>\<open>catch\<close>; the one
    case that can throw by itself is \<^verbatim>\<open>flashcards\<close>, whose \<^verbatim>\<open>rawFlashcards.map\<close> is a
    \<^verbatim>\<open>TypeError\<close> on a value that is not an array;
  \<^item> \<open>handleSendMessage_settle\<close>: the append of the response, or the \<^verbatim>\<open>catch\<close> block,
    and the \<^verbatim>\<open>finally\<close> block.
  The clock readings are parameters: \<open>t_user\<close> and \<open>t_msgId\<close> are the two
  \<^verbatim>\<open>Date.now()\<close> calls before the \<^verbatim>\<open>await\<close>, \<open>t_card i\<close> the one made for the flashcard
  of index \<open>i\<close>, \<open>t_error\<close> the one of the \<^verbatim>\<open>catch\<close> block.
\<close>

record Clock =
  t_user :: nat
  t_msgId :: nat
  t_card :: "nat \<Rightarrow> nat"
  t_error :: nat

record Pending =
  p_notebookId :: string
  p_sources :: "Source list"
  p_message :: string
  p_type :: Intent
  p_msgId :: string

definition userMessage :: "string \<Rightarrow> nat \<Rightarrow> ChatMessage" where
  \<comment> \<open>\<^verbatim>\<open>{ id: `msg_${Date.now()}`, role: 'user', text: message, contentType: ContentType.TEXT }\<close>\<close>
  "userMessage message now =
     \<lparr>msg_id = ''msg_'' @ show_nat now, msg_role = User, msg_text = message,
      msg_contentType = TEXT, msg_contentData = None\<rparr>"

definition pendingOf :: "Notebook \<Rightarrow> string \<Rightarrow> Intent \<Rightarrow> Clock \<Rightarrow> Pending" where
  \<comment> \<open>what the closure holds when the service call is issued: \<^verbatim>\<open>activeNotebook.id\<close>,
      \<^verbatim>\<open>sources = activeNotebook.sources\<close>, the arguments, and
      \<^verbatim>\<open>msgId = `msg_${Date.now() + 1}`\<close>\<close>
  "pendingOf nb message ty clock =
     \<lparr>p_notebookId = nb_id nb, p_sources = nb_sources nb, p_message = message, p_type = ty,
      p_msgId = ''msg_'' @ show_nat (t_msgId clock + 1)\<rparr>"

definition handleSendMessage_begin ::
  "string \<Rightarrow> Intent \<Rightarrow> Clock \<Rightarrow> AppState \<Rightarrow> AppState \<times> Pending option" where
  "handleSendMessage_begin message ty clock s =
     (case activeNotebook s of
        None \<Rightarrow> (s, None)
      | Some nb \<Rightarrow>
          if isLoading s then (s, None)
          else (updateChat (nb_id nb) (userMessage message (t_user clock)) (s\<lparr>isLoading := True\<rparr>),
                Some (pendingOf nb message ty clock)))"

definition awaited :: "Failure + 'a \<Rightarrow> ('a \<Rightarrow> ChatMessage) \<Rightarrow> Failure + ChatMessage" where
  \<comment> \<open>\<^verbatim>\<open>await\<close> inside the \<^verbatim>\<open>try\<close>: a rejection skips the rest of the case\<close>
  "awaited r k = (case r of Inl e \<Rightarrow> Inl e | Inr v \<Rightarrow> Inr (k v))"

definition modelMessage :: "string \<Rightarrow> string \<Rightarrow> ContentType \<Rightarrow> ContentData option \<Rightarrow> ChatMessage" where
  "modelMessage msgId text ct cd =
     \<lparr>msg_id = msgId, msg_role = Model, msg_text = text, msg_contentType = ct,
      msg_contentData = cd\<rparr>"

definition flashcardsWithIds :: "(nat \<Rightarrow> nat) \<Rightarrow> RawFlashcard list \<Rightarrow> Flashcard list" where
  \<comment> \<open>\<^verbatim>\<open>rawFlashcards.map((card, index) => ({...card, id: `flashcard_${Date.now()}_${index}`}))\<close>\<close>
  "flashcardsWithIds tick rawFlashcards =
     map (\<lambda>(card, index).
            \<lparr>fc_id = ''flashcard_'' @ show_nat (tick index) @ ''_'' @ show_nat index,
             fc_term = raw_term card, fc_definition = raw_definition card\<rparr>)
         (zip rawFlashcards [0 ..< length rawFlashcards])"

definition stored :: "('a \<Rightarrow> ContentData) \<Rightarrow> 'a Parsed \<Rightarrow> ContentData" where
  \<comment> \<open>\<^verbatim>\<open>contentData: await geminiService.generate...(sources)\<close>: the resolved value, as it is\<close>
  "stored wrap v = (case v of Declared x \<Rightarrow> wrap x | Other j \<Rightarrow> JsonData j)"

fun ownProperties :: "Json \<Rightarrow> (string \<times> Json) list" where
  \<comment> \<open>the properties that the spread \<^verbatim>\<open>{...card}\<close> copies\<close>
  "ownProperties (JObject members) = members"
| "ownProperties (JArray xs) = zip (map show_nat [0 ..< length xs]) xs"
| "ownProperties (JString cs) = zip (map show_nat [0 ..< length cs]) (map (\<lambda>c. JString [c]) cs)"
| "ownProperties j = []"

definition withProperty :: "string \<Rightarrow> Json \<Rightarrow> (string \<times> Json) list \<Rightarrow> (string \<times> Json) list" where
  "withProperty key v members =
     (if key \<in> fst ` set members
      then map (\<lambda>(k, x). if k = key then (k, v) else (k, x)) members
      else members @ [(key, v)])"

definition cardsWithIds :: "(nat \<Rightarrow> nat) \<Rightarrow> Json list \<Rightarrow> Json list" where
  \<comment> \<open>the same \<^verbatim>\<open>map\<close> on an array whose elements are not of the declared type\<close>
  "cardsWithIds tick cards =
     map (\<lambda>(card, index).
            JObject (withProperty ''id''
                       (JString (''flashcard_'' @ show_nat (tick index) @ ''_'' @ show_nat index))
                       (ownProperties card)))
         (zip cards [0 ..< length cards])"

definition handleSendMessage_call ::
  "GeminiService \<Rightarrow> Clock \<Rightarrow> Pending \<Rightarrow> Failure + ChatMessage" where
  "handleSendMessage_call svc clock p =
     (let msgId = p_msgId p; sources = p_sources p in
      case p_type p of
        Chat \<Rightarrow> awaited (askAboutSource svc sources (p_message p))
                  (\<lambda>t. modelMessage msgId t TEXT None)
      | Summary \<Rightarrow> awaited (generateSummary svc sources)
                  (\<lambda>t. modelMessage msgId ''Here is a summary of the sources:'' SUMMARY
                         (Some (StringData t)))
      | Quiz \<Rightarrow> awaited (generateQuiz svc sources)
                  (\<lambda>v. modelMessage msgId ''Here is your quiz:'' QUIZ (Some (stored QuizData v)))
      | Flashcards \<Rightarrow>
          (case generateFlashcards svc sources of
             Inl e \<Rightarrow> Inl e
           | Inr (Declared raw) \<Rightarrow>
               Inr (modelMessage msgId ''Here are your flashcards:'' FLASHCARDS
                      (Some (FlashcardData (flashcardsWithIds (t_card clock) raw))))
           | Inr (Other (JArray cards)) \<Rightarrow>
               Inr (modelMessage msgId ''Here are your flashcards:'' FLASHCARDS
                      (Some (JsonData (JArray (cardsWithIds (t_card clock) cards)))))
           | Inr (Other j) \<Rightarrow> Inl TypeError)
      | Faq \<Rightarrow> awaited (generateFAQ svc sources)
                  (\<lambda>v. modelMessage msgId ''Here are some frequently asked questions:'' FAQ
                         (Some (stored FAQData v)))
      | Timeline \<Rightarrow> awaited (generateTimeline svc sources)
                  (\<lambda>v. modelMessage msgId ''Here is a timeline of key events:'' TIMELINE
                         (Some (stored TimelineData v)))
      | Podcast \<Rightarrow> awaited (generatePodcastScript svc sources)
                  (\<lambda>t. modelMessage msgId ''Podcast Script:'' PODCAST (Some (ScriptData t)))
      | Ideas \<Rightarrow> awaited (generateIdeas svc sources)
                  (\<lambda>t. modelMessage msgId ''Here are some ideas based on the sources:'' IDEAS
                         (Some (StringData t)))
      | Critique \<Rightarrow> awaited (generateCritique svc sources)
                  (\<lambda>t. modelMessage msgId ''Here is a critique of the sources:'' CRITIQUE
                         (Some (StringData t)))
      | Mindmap \<Rightarrow> awaited (generateMindMap svc sources)
                  (\<lambda>v. modelMessage msgId ''Here is a mind map of the key concepts:'' MIND_MAP
                         (Some (stored MindMapData v)))
      | Debate \<Rightarrow> awaited (generateDebate svc sources)
                  (\<lambda>v. modelMessage msgId ''Here is a debate on the source material:'' DEBATE
                         (Some (stored DebateData v))))"

definition rejection :: "Failure + 'a \<Rightarrow> Failure option" where
  "rejection r = (case r of Inl e \<Rightarrow> Some e | Inr v \<Rightarrow> None)"

definition awaitedRejection :: "GeminiService \<Rightarrow> Pending \<Rightarrow> Failure option" where
  \<comment> \<open>the rejection, if any, of the service promise that the \<^verbatim>\<open>switch\<close> awaits\<close>
  "awaitedRejection svc p =
     (let sources = p_sources p in
      case p_type p of
        Chat \<Rightarrow> rejection (askAboutSource svc sources (p_message p))
      | Summary \<Rightarrow> rejection (generateSummary svc sources)
      | Quiz \<Rightarrow> rejection (generateQuiz svc sources)
      | Flashcards \<Rightarrow> rejection (generateFlashcards svc sources)
      | Faq \<Rightarrow> rejection (generateFAQ svc sources)
      | Timeline \<Rightarrow> rejection (generateTimeline svc sources)
      | Podcast \<Rightarrow> rejection (generatePodcastScript svc sources)
      | Ideas \<Rightarrow> rejection (generateIdeas svc sources)
      | Critique \<Rightarrow> rejection (generateCritique svc sources)
      | Mindmap \<Rightarrow> rejection (generateMindMap svc sources)
      | Debate \<Rightarrow> rejection (generateDebate svc sources))"

definition mapThrows :: "GeminiService \<Rightarrow> Pending \<Rightarrow> bool" where
  \<comment> \<open>\<^verbatim>\<open>rawFlashcards.map\<close> throws: the flashcards promise resolved to a value that is not
      an array\<close>
  "mapThrows svc p =
     (p_type p = Flashcards \<and>
      (case generateFlashcards svc (p_sources p) of
         Inr (Other (JArray cards)) \<Rightarrow> False
       | Inr (Other j) \<Rightarrow> True
       | _ \<Rightarrow> False))"

definition errorMessage :: "nat \<Rightarrow> ChatMessage" where
  "errorMessage now =
     modelMessage (''msg_'' @ show_nat (now + 1))
       ''Sorry, I encountered an error. Please check the console for details.'' ERROR None"

definition handleSendMessage_settle ::
  "Clock \<Rightarrow> Pending \<Rightarrow> Failure + ChatMessage \<Rightarrow> AppState \<Rightarrow> AppState" where
  "handleSendMessage_settle clock p outcome s =
     (case outcome of
        Inr response \<Rightarrow> updateChat (p_notebookId p) response s
      | Inl error \<Rightarrow> updateChat (p_notebookId p) (errorMessage (t_error clock)) s)
     \<lparr>isLoading := False\<rparr>"

definition handleSendMessage ::
  "GeminiService \<Rightarrow> string \<Rightarrow> Intent \<Rightarrow> Clock \<Rightarrow> AppState \<Rightarrow> AppState" where
  \<comment> \<open>one whole run of the handler, with nothing else happening during the \<^verbatim>\<open>await\<close>\<close>
  "handleSendMessage svc message ty clock s =
     (case handleSendMessage_begin message ty clock s of
        (s', None) \<Rightarrow> s'
      | (s', Some p) \<Rightarrow>
          handleSendMessage_settle clock p (handleSendMessage_call svc clock p) s')"

definition logOf :: "AppState \<Rightarrow> string \<Rightarrow> ChatMessage list" where
  \<comment> \<open>\<^verbatim>\<open>chatHistory[notebookId] || []\<close>\<close>
  "logOf s notebookId = (case chatHistory s notebookId of None \<Rightarrow> [] | Some l \<Rightarrow> l)"

definition storedQuizQuestions :: "ChatMessage list \<Rightarrow> QuizQuestion list" where
  \<comment> \<open>the questions held by the QUIZ-typed messages of a log, in log order\<close>
  "storedQuizQuestions log =
     concat (map (\<lambda>m. case msg_contentData m of
                        Some (QuizData qs) \<Rightarrow> if msg_contentType m = QUIZ then qs else []
                      | _ \<Rightarrow> [])
                 log)"

definition quizValid :: "QuizQuestion \<Rightarrow> bool" where
  \<comment> \<open>the invariant \<^verbatim>\<open>correctAnswer \<in> options\<close>\<close>
  "quizValid q = (correctAnswer q \<in> set (options q))"

definition structuredType :: "ContentType \<Rightarrow> bool" where
  \<comment> \<open>the content types that carry \<^verbatim>\<open>contentData\<close>\<close>
  "structuredType ct = (ct \<noteq> TEXT \<and> ct \<noteq> ERROR)"

section \<open>The application as a transition system\<close>

text \<open>
  The handlers run one at a time. Between the two halves of \<^verbatim>\<open>handleSendMessage\<close> any
  other handler may run. \<open>inflight\<close> holds the service calls that have been issued and have
  not settled; \<open>issued\<close> records every issued call with the user message of its intent,
  in issue order, and \<open>settled\<close> every settled call with the message appended when it
  settled, in settle order. These three are bookkeeping of the model: the program has no
  such variables. A \<open>Settle\<close> event names the call that settles by its position in
  \<open>inflight\<close>, so the model by itself lets calls settle in any order. An \<open>AddSource\<close>
  event carries the \<^verbatim>\<open>notebooks\<close> that its handler closes over.
\<close>

record System =
  app :: AppState
  inflight :: "Pending list"
  issued :: "(Pending \<times> ChatMessage) list"
  settled :: "(Pending \<times> ChatMessage) list"

datatype Event =
  SendMessage string Intent Clock
  | Settle nat GeminiService Clock
  | CreateNotebook string nat string
  | DeleteNotebook string
  | SelectNotebook string
  | AddSource "Notebook list" string string string SourceType nat
  | SaveItem string ItemData nat string
  | DeleteSavedItem string string
  | SetCreating bool
  | ToggleDarkMode
  | RunEffect

definition settledMessage :: "Clock \<Rightarrow> Failure + ChatMessage \<Rightarrow> ChatMessage" where
  \<comment> \<open>the message that \<open>handleSendMessage_settle\<close> appends\<close>
  "settledMessage clock outcome =
     (case outcome of Inr response \<Rightarrow> response | Inl e \<Rightarrow> errorMessage (t_error clock))"

fun step :: "Event \<Rightarrow> System \<Rightarrow> System" where
  "step (SendMessage message ty clock) sys =
     (case handleSendMessage_begin message ty clock (app sys) of
        (s', None) \<Rightarrow> sys\<lparr>app := s'\<rparr>
      | (s', Some p) \<Rightarrow>
          sys\<lparr>app := s', inflight := inflight sys @ [p],
              issued := issued sys @ [(p, userMessage message (t_user clock))]\<rparr>)"
| "step (Settle k svc clock) sys =
     (if k < length (inflight sys)
      then (let p = inflight sys ! k
            in sys\<lparr>app := handleSendMessage_settle clock p (handleSendMessage_call svc clock p)
                             (app sys),
                    inflight := take k (inflight sys) @ drop (Suc k) (inflight sys),
                    settled := settled sys @
                      [(p, settledMessage clock (handleSendMessage_call svc clock p))]\<rparr>)
      else sys)"
| "step (CreateNotebook title now stamp) sys =
     sys\<lparr>app := handleCreateNotebook title now stamp (app sys)\<rparr>"
| "step (DeleteNotebook ident) sys = sys\<lparr>app := handleDeleteNotebook ident (app sys)\<rparr>"
| "step (SelectNotebook ident) sys = sys\<lparr>app := (app sys)\<lparr>activeNotebookId := Some ident\<rparr>\<rparr>"
| "step (AddSource rendered notebookId title content ty now) sys =
     sys\<lparr>app := handleAddSourceToNotebook rendered notebookId title content ty now (app sys)\<rparr>"
| "step (SaveItem notebookId itemData now stamp) sys =
     sys\<lparr>app := handleSaveItemToNotebook notebookId itemData now stamp (app sys)\<rparr>"
| "step (DeleteSavedItem notebookId itemId) sys =
     sys\<lparr>app := handleDeleteSavedItem notebookId itemId (app sys)\<rparr>"
| "step (SetCreating b) sys = sys\<lparr>app := (app sys)\<lparr>isCreatingNotebook := b\<rparr>\<rparr>"
| "step ToggleDarkMode sys = sys\<lparr>app := (app sys)\<lparr>isDarkMode := \<not> isDarkMode (app sys)\<rparr>\<rparr>"
| "step RunEffect sys = sys\<lparr>app := ensureActiveEffect (app sys)\<rparr>"

definition run :: "Event list \<Rightarrow> System \<Rightarrow> System" where
  "run evs sys = fold step evs sys"

definition initial :: "AppState \<Rightarrow> System" where
  \<comment> \<open>\<^verbatim>\<open>useState(false)\<close> for the busy flag; the persisted parts are whatever was stored\<close>
  "initial s = \<lparr>app = s\<lparr>isLoading := False\<rparr>, inflight = [], issued = [], settled = []\<rparr>"

fun resets :: "Event \<Rightarrow> bool" where
  \<comment> \<open>the events that empty or remove a whole log: \<^verbatim>\<open>[newNotebook.id]: []\<close> and
      \<^verbatim>\<open>delete newChatHistory[id]\<close>\<close>
  "resets (CreateNotebook title now stamp) = True"
| "resets (DeleteNotebook ident) = True"
| "resets ev = False"

fun exchangeLog ::
  "string \<Rightarrow> (Pending \<times> ChatMessage) list \<Rightarrow> (Pending \<times> ChatMessage) list \<Rightarrow> ChatMessage list"
  where
  \<comment> \<open>the messages of the calls made for one notebook, in the order the calls were issued:
      for each call its user message and then, if the call of that position has settled,
      the message appended when it settled\<close>
  "exchangeLog k [] ss = []"
| "exchangeLog k ((p, u) # cs) [] =
     (if p_notebookId p = k then [u] else []) @ exchangeLog k cs []"
| "exchangeLog k ((p, u) # cs) ((q, r) # ss) =
     (if p_notebookId p = k then [u, r] else []) @ exchangeLog k cs ss"

text \<open>
  The invariant of the busy flag: at most one call is in flight, the flag is set exactly
  while one is, and the calls that have not settled are the tail of the issued ones.
\<close>

definition flightInv :: "System \<Rightarrow> bool" where
  "flightInv sys \<longleftrightarrow>
     length (inflight sys) \<le> 1 \<and> (isLoading (app sys) \<longleftrightarrow> inflight sys \<noteq> []) \<and>
     map fst (issued sys) = map fst (settled sys) @ inflight sys"

text \<open>
  The two invariants of the logs, relative to the start state: every log is a final
  segment of the start log followed by the messages of the calls made for its notebook,
  in issue order; and it is all of that while no event has emptied or removed a log.
\<close>

definition logInv :: "AppState \<Rightarrow> System \<Rightarrow> bool" where
  "logInv s0 sys \<longleftrightarrow>
     (\<forall>k. suffix (logOf (app sys) k)
            (logOf s0 k @ exchangeLog k (issued sys) (settled sys)))"

definition logEq :: "AppState \<Rightarrow> System \<Rightarrow> bool" where
  "logEq s0 sys \<longleftrightarrow>
     (\<forall>k. logOf (app sys) k = logOf s0 k @ exchangeLog k (issued sys) (settled sys))"

section \<open>The saved items library and the source registry as operation sequences\<close>



datatype LibraryOp = Save string ItemData nat string | Delete string string

fun libraryOp :: "LibraryOp \<Rightarrow> AppState \<Rightarrow> AppState" where
  "libraryOp (Save notebookId itemData now stamp) s =
     handleSaveItemToNotebook notebookId itemData now stamp s"
| "libraryOp (Delete notebookId itemId) s = handleDeleteSavedItem notebookId itemId s"

definition libraryOps :: "LibraryOp list \<Rightarrow> AppState \<Rightarrow> AppState" where
  \<comment> \<open>any interleaving of save and delete calls, on any notebooks, in call order\<close>
  "libraryOps ops s = fold libraryOp ops s"


text \<open>
  What one library call does to the \<^verbatim>\<open>savedItems\<close> array of a notebook with the id
  \<open>nid\<close>: the bodies of the two \<^verbatim>\<open>map\<close> callbacks. The counting functions read a call
  sequence from the point of view of that notebook.
\<close>

fun applyOp :: "string \<Rightarrow> LibraryOp \<Rightarrow> SavedItem list \<Rightarrow> SavedItem list" where
  "applyOp nid (Save notebookId itemData now stamp) items =
     (if nid = notebookId then items @ [newItem notebookId itemData now stamp] else items)"
| "applyOp nid (Delete notebookId itemId) items =
     (if nid = notebookId then filter (\<lambda>item. si_id item \<noteq> itemId) items else items)"

definition itemsAfter :: "string \<Rightarrow> LibraryOp list \<Rightarrow> SavedItem list \<Rightarrow> SavedItem list" where
  "itemsAfter nid ops items = fold (applyOp nid) ops items"

fun saveTimes :: "string \<Rightarrow> LibraryOp list \<Rightarrow> nat list" where
  \<comment> \<open>the clock readings of the save calls on the notebook\<close>
  "saveTimes nid [] = []"
| "saveTimes nid (Save notebookId itemData now stamp # ops) =
     (if nid = notebookId then now # saveTimes nid ops else saveTimes nid ops)"
| "saveTimes nid (Delete notebookId itemId # ops) = saveTimes nid ops"

definition saveCalls :: "string \<Rightarrow> LibraryOp list \<Rightarrow> nat" where
  "saveCalls nid ops = length (saveTimes nid ops)"

fun matchingDeletes :: "string \<Rightarrow> LibraryOp list \<Rightarrow> SavedItem list \<Rightarrow> nat" where
  \<comment> \<open>the delete calls on the notebook that find their id in the array when they run\<close>
  "matchingDeletes nid [] items = 0"
| "matchingDeletes nid (Save notebookId itemData now stamp # ops) items =
     matchingDeletes nid ops (applyOp nid (Save notebookId itemData now stamp) items)"
| "matchingDeletes nid (Delete notebookId itemId # ops) items =
     (if nid = notebookId \<and> itemId \<in> si_id ` set items then 1 else 0)
     + matchingDeletes nid ops (applyOp nid (Delete notebookId itemId) items)"

section \<open>The mind map schemas (geminiService.ts)\<close>

text \<open>
  A response schema is a tree of \<^verbatim>\<open>{type, properties, items, required}\<close> objects.
  \<^verbatim>\<open>Type.OBJECT\<close> carries its properties in source order and its \<^verbatim>\<open>required\<close> list (empty
  when the source gives none); the \<^verbatim>\<open>description\<close> strings, which are prose for the
  backend, are left out.
\<close>

datatype Schema = STRING | ARRAY Schema | OBJECT "(string \<times> Schema) list" "string list"

fun property :: "(string \<times> Schema) list \<Rightarrow> string \<Rightarrow> Schema option" where
  "property [] k = None"
| "property ((k', v) # ps) k = (if k' = k then Some v else property ps k)"

function childrenLevels :: "Schema \<Rightarrow> nat" where
  "childrenLevels (OBJECT props req) =
     (case property props ''children'' of
        Some (ARRAY items) \<Rightarrow> Suc (childrenLevels items)
      | _ \<Rightarrow> 0)"
| "childrenLevels STRING = 0"
| "childrenLevels (ARRAY items) = 0"
  by pat_completeness auto
termination
proof (relation "measure size")
  show "wf (measure (size :: Schema \<Rightarrow> nat))" by simp
next
  fix props :: "(string \<times> Schema) list" and req :: "string list" and x2 items
  assume a: "property props ''children'' = Some x2" and b: "x2 = ARRAY items"
  have "property ps k = Some v \<Longrightarrow> size v < Suc (size_list (size_prod (\<lambda>_. 0) size) ps)"
    for ps k and v :: Schema
    by (induction ps) (auto split: if_splits)
  from this [OF a] b show "(items, OBJECT props req) \<in> measure size" by simp
qed

fun level :: "nat \<Rightarrow> Schema \<Rightarrow> Schema option" where
  \<comment> \<open>the schema of the nodes \<open>n\<close> levels below the given one, if the schema has that level\<close>
  "level 0 s = Some s"
| "level (Suc n) s =
     (case s of
        OBJECT props req \<Rightarrow>
          (case property props ''children'' of
             Some (ARRAY items) \<Rightarrow> level n items
           | _ \<Rightarrow> None)
      | _ \<Rightarrow> None)"

text \<open>The service with the five unrolled levels.\<close>

definition mindMapNodeSchemaL5 :: Schema where
  "mindMapNodeSchemaL5 = OBJECT [(''topic'', STRING)] [''topic'']"

definition mindMapNodeSchemaL4 :: Schema where
  "mindMapNodeSchemaL4 =
     OBJECT [(''topic'', STRING), (''children'', ARRAY mindMapNodeSchemaL5)] [''topic'']"

definition mindMapNodeSchemaL3 :: Schema where
  "mindMapNodeSchemaL3 =
     OBJECT [(''topic'', STRING), (''children'', ARRAY mindMapNodeSchemaL4)] [''topic'']"

definition mindMapNodeSchemaL2 :: Schema where
  "mindMapNodeSchemaL2 =
     OBJECT [(''topic'', STRING), (''children'', ARRAY mindMapNodeSchemaL3)] [''topic'']"

definition mindMapNodeSchemaL1 :: Schema where
  "mindMapNodeSchemaL1 =
     OBJECT [(''topic'', STRING), (''children'', ARRAY mindMapNodeSchemaL2)] [''topic'']"

definition mindMapSchema :: Schema where
  "mindMapSchema =
     OBJECT [(''topic'', STRING), (''children'', ARRAY mindMapNodeSchemaL1)] [''topic'']"

text \<open>
  The other copy of the service, whose \<^verbatim>\<open>generateMindMap\<close> builds its schema inline
  (\<^verbatim>\<open>// Define the schema up to 3 levels deep as requested by the prompt.\<close>).
\<close>

definition mindMapNodeSchema :: Schema where
  "mindMapNodeSchema =
     OBJECT [(''topic'', STRING),
             (''children'', ARRAY (OBJECT [(''topic'', STRING),
                                           (''children'', ARRAY (OBJECT [(''topic'', STRING)] []))]
                                          []))]
            [''topic'']"

section \<open>generateJsonContent (geminiService.ts)\<close>

text \<open>
  \<^verbatim>\<open>generateJsonContent(prompt, schema)\<close> awaits \<^verbatim>\<open>ai.models.generateContent\<close>, to which
  alone it hands the schema, then returns \<^verbatim>\<open>JSON.parse(response.text.trim()) as T\<close>. A
  rejection of the backend call propagates; an empty text or a text that does not parse
  makes it throw a fresh \<^verbatim>\<open>Error\<close>. The backend call, \<^verbatim>\<open>String.prototype.trim\<close> and
  \<^verbatim>\<open>JSON.parse\<close> (\<open>None\<close> where it throws) are parameters. The other copy of the service
  has no test for the empty text, which \<^verbatim>\<open>JSON.parse\<close> rejects by itself, and throws an
  \<^verbatim>\<open>Error\<close> with another message.
\<close>

definition generateJsonContent ::
  "(string \<Rightarrow> string) \<Rightarrow> (string \<Rightarrow> Json option) \<Rightarrow> (string \<Rightarrow> Schema \<Rightarrow> Failure + string) \<Rightarrow>
   string \<Rightarrow> Schema \<Rightarrow> Failure + Json" where
  "generateJsonContent trim parse generateContent prompt schema =
     (case generateContent prompt schema of
        Inl e \<Rightarrow> Inl e
      | Inr text \<Rightarrow>
          (let jsonText = trim text in
           if jsonText = [] then Inl InvalidFormatFailure
           else (case parse jsonText of
                   None \<Rightarrow> Inl InvalidFormatFailure
                 | Some v \<Rightarrow> Inr v)))"

definition quizSchema :: Schema where
  "quizSchema =
     ARRAY (OBJECT [(''question'', STRING), (''options'', ARRAY STRING),
                    (''correctAnswer'', STRING)]
                   [''question'', ''options'', ''correctAnswer''])"

fun typeMatches :: "Schema \<Rightarrow> Json \<Rightarrow> bool" where
  \<comment> \<open>the \<^verbatim>\<open>type\<close> tag of a schema against the kind of a parsed value: the least that a
      value fitting the schema satisfies. No function of the program computes it.\<close>
  "typeMatches STRING (JString cs) = True"
| "typeMatches (ARRAY items) (JArray xs) = True"
| "typeMatches (OBJECT props req) (JObject members) = True"
| "typeMatches schema j = False"

section \<open>Example data\<close>

definition demoSource :: Source where
  "demoSource = \<lparr>src_id = ''source_1'', src_type = SrcText, src_title = ''Doc'',
                 src_content = ''Paris is the capital of France.''\<rparr>"

definition demoNotebook :: "string \<Rightarrow> Source list \<Rightarrow> Notebook" where
  "demoNotebook i srcs = \<lparr>nb_id = i, nb_title = ''Notes'', nb_sources = srcs,
                         nb_createdAt = ''2024-01-01T00:00:00.000Z'', nb_savedItems = Some []\<rparr>"

definition demoState :: "Notebook list \<Rightarrow> string option \<Rightarrow> AppState" where
  "demoState nbs a = \<lparr>notebooks = nbs, activeNotebookId = a, chatHistory = Map.empty,
                     isLoading = False, isCreatingNotebook = False, isDarkMode = False\<rparr>"

definition demoClock :: Clock where
  "demoClock = \<lparr>t_user = 1000, t_msgId = 1000, t_card = (\<lambda>_. 1005), t_error = 1007\<rparr>"

definition failingService :: "Failure \<Rightarrow> GeminiService" where
  "failingService e =
     \<lparr>askAboutSource = (\<lambda>_ _. Inl e), generateSummary = (\<lambda>_. Inl e),
      generateQuiz = (\<lambda>_. Inl e), generateFlashcards = (\<lambda>_. Inl e),
      generateFAQ = (\<lambda>_. Inl e), generateTimeline = (\<lambda>_. Inl e),
      generatePodcastScript = (\<lambda>_. Inl e), generateIdeas = (\<lambda>_. Inl e),
      generateCritique = (\<lambda>_. Inl e), generateMindMap = (\<lambda>_. Inl e),
      generateDebate = (\<lambda>_. Inl e)\<rparr>"

definition quizService :: "QuizQuestion list \<Rightarrow> GeminiService" where
  "quizService qs = (failingService BackendFailure)\<lparr>generateQuiz := (\<lambda>_. Inr (Declared qs))\<rparr>"

definition emptyObjectParse :: "string \<Rightarrow> Json option" where
  \<comment> \<open>\<^verbatim>\<open>JSON.parse\<close> on the one text of the example, the empty object\<close>
  "emptyObjectParse text = (if text = ''{}'' then Some (JObject []) else None)"

definition emptyObjectService :: GeminiService where
  \<comment> \<open>a service whose backend answers the quiz request with the text of the empty object\<close>
  "emptyObjectService =
     (failingService BackendFailure)
       \<lparr>generateQuiz :=
          (\<lambda>sources. case generateJsonContent (\<lambda>text. text) emptyObjectParse
                             (\<lambda>prompt schema. Inr ''{}'') ''quiz'' quizSchema of
                        Inl e \<Rightarrow> Inl e
                      | Inr j \<Rightarrow> Inr (Other j))\<rparr>"

definition demoItem :: ItemData where
  "demoItem = \<lparr>item_type = SUMMARY, item_contentData = StringData ''short'',
               item_title = ''Saved summary''\<rparr>"

definition demoSavedState :: AppState where
  \<comment> \<open>one notebook \<open>a\<close> holding one saved item, \<open>saved_1\<close>\<close>
  "demoSavedState =
     demoState [(demoNotebook ''a'' [])\<lparr>nb_savedItems := Some [newItem ''a'' demoItem 1 ''t'']\<rparr>]
       (Some ''a'')"

definition demoOps :: "LibraryOp list" where
  "demoOps = [Save ''a'' demoItem 5 ''t'', Save ''b'' demoItem 5 ''t'', Save ''a'' demoItem 6 ''t'',
              Delete ''a'' ''saved_5'', Delete ''a'' ''saved_9'']"

definition sameTickOps :: "LibraryOp list" where
  \<comment> \<open>two saves within one millisecond, then a delete of the id they share\<close>
  "sameTickOps = [Save ''a'' demoItem 5 ''t'', Save ''a'' demoItem 5 ''t'', Delete ''a'' ''saved_5'']"

definition badQuestion :: QuizQuestion where
  "badQuestion = \<lparr>question = ''What is the capital of France?'',
                   options = [''Paris'', ''Rome''], correctAnswer = ''Berlin''\<rparr>"

definition goodQuestion :: QuizQuestion where
  "goodQuestion = \<lparr>question = ''What is the capital of France?'',
                    options = [''Paris'', ''Rome''], correctAnswer = ''Paris''\<rparr>"

definition laterClock :: Clock where
  "laterClock = \<lparr>t_user = 2000, t_msgId = 2000, t_card = (\<lambda>_. 2005), t_error = 2007\<rparr>"

definition demoRun :: "Event list" where
  "demoRun = [SendMessage ''Hello'' Chat demoClock, Settle 0 (failingService BackendFailure) demoClock,
              SendMessage ''Again'' Chat laterClock, Settle 0 (failingService BackendFailure) laterClock]"

section \<open>Properties\<close>

subsection \<open>Decimal rendering is injective\<close>

lemma digit_char_inj: "a < 10 \<Longrightarrow> b < 10 \<Longrightarrow> digit_char a = digit_char b \<Longrightarrow> a = b"
proof -
  assume a: "a < 10" and b: "b < 10" and e: "digit_char a = digit_char b"
  have d: "distinct ''0123456789''" by simp
  from a b e show "a = b"
    unfolding digit_char_def using nth_eq_iff_index_eq [OF d, of a b] by simp
qed

lemma show_nat_not_Nil: "show_nat n \<noteq> []"
  by (subst show_nat.simps) simp

lemma show_nat_inj: "show_nat n = show_nat m \<Longrightarrow> n = m"
proof (induction n arbitrary: m rule: show_nat.induct)
  case (1 n)
  show ?case
  proof (cases "n < 10")
    case True
    then have sn: "show_nat n = [digit_char n]" by (subst show_nat.simps) simp
    show ?thesis
    proof (cases "m < 10")
      case True
      then have "show_nat m = [digit_char m]" by (subst show_nat.simps) simp
      with sn "1.prems" \<open>n < 10\<close> True show ?thesis by (auto dest: digit_char_inj)
    next
      case False
      then have "show_nat m = show_nat (m div 10) @ [digit_char (m mod 10)]"
        by (subst show_nat.simps) simp
      with sn "1.prems" show ?thesis using show_nat_not_Nil [of "m div 10"] by auto
    qed
  next
    case False
    then have sn: "show_nat n = show_nat (n div 10) @ [digit_char (n mod 10)]"
      by (subst show_nat.simps) simp
    show ?thesis
    proof (cases "m < 10")
      case True
      then have "show_nat m = [digit_char m]" by (subst show_nat.simps) simp
      with sn "1.prems" show ?thesis using show_nat_not_Nil [of "n div 10"] by auto
    next
      case m: False
      then have sm: "show_nat m = show_nat (m div 10) @ [digit_char (m mod 10)]"
        by (subst show_nat.simps) simp
      from sn sm "1.prems" have a: "show_nat (n div 10) = show_nat (m div 10)"
        and b: "digit_char (n mod 10) = digit_char (m mod 10)" by simp_all
      from "1.IH" [OF False a] have "n div 10 = m div 10" .
      moreover from b have "n mod 10 = m mod 10" by (intro digit_char_inj) simp_all
      ultimately show ?thesis by (metis div_mult_mod_eq)
    qed
  qed
qed

subsection \<open>Deleting a notebook\<close>

text \<open>
  C10. Deleting the active notebook moves the active-notebook pointer to the id of the first
  notebook that remains, or to null when none remains; deleting any other notebook leaves
  the pointer as it was. The remaining notebooks are those whose id differs from the
  deleted one, in their old order.
\<close>

theorem handleDeleteNotebook_active_pointer:
  "notebooks (handleDeleteNotebook i s) = filter (\<lambda>n. nb_id n \<noteq> i) (notebooks s) \<and>
   (activeNotebookId s = Some i \<longrightarrow>
      activeNotebookId (handleDeleteNotebook i s) =
        (if notebooks (handleDeleteNotebook i s) = [] then None
         else Some (nb_id (hd (notebooks (handleDeleteNotebook i s)))))) \<and>
   (activeNotebookId s \<noteq> Some i \<longrightarrow>
      activeNotebookId (handleDeleteNotebook i s) = activeNotebookId s)"
  by (simp add: handleDeleteNotebook_def Let_def split: list.split)

theorem handleDeleteNotebook_active_pointer_witness:
  "activeNotebookId (demoState [demoNotebook ''a'' [], demoNotebook ''b'' []] (Some ''a''))
     = Some ''a'' \<and>
   activeNotebookId (handleDeleteNotebook ''a''
      (demoState [demoNotebook ''a'' [], demoNotebook ''b'' []] (Some ''a''))) = Some ''b'' \<and>
   activeNotebookId (handleDeleteNotebook ''a'' (demoState [demoNotebook ''a'' []] (Some ''a'')))
     = None \<and>
   activeNotebookId (demoState [demoNotebook ''a'' [], demoNotebook ''b'' []] (Some ''a''))
     \<noteq> Some ''b'' \<and>
   activeNotebookId (handleDeleteNotebook ''b''
      (demoState [demoNotebook ''a'' [], demoNotebook ''b'' []] (Some ''a''))) = Some ''a''"
  using handleDeleteNotebook_active_pointer
          [of "''a''" "demoState [demoNotebook ''a'' [], demoNotebook ''b'' []] (Some ''a'')"]
        handleDeleteNotebook_active_pointer
          [of "''a''" "demoState [demoNotebook ''a'' []] (Some ''a'')"]
        handleDeleteNotebook_active_pointer
          [of "''b''" "demoState [demoNotebook ''a'' [], demoNotebook ''b'' []] (Some ''a'')"]
  by (simp add: demoState_def demoNotebook_def)

subsection \<open>Deleting a saved item\<close>

lemma handleDeleteSavedItem_absent_eq:
  assumes "\<forall>n \<in> set (notebooks s). nb_id n = notebookId \<longrightarrow>
             itemId \<notin> si_id ` set (savedItemsOf n)"
  shows "handleDeleteSavedItem notebookId itemId s =
           s\<lparr>notebooks := map (\<lambda>n. if nb_id n = notebookId
                                     then n\<lparr>nb_savedItems := Some (savedItemsOf n)\<rparr> else n)
                                (notebooks s)\<rparr>"
proof -
  have keep: "filter (\<lambda>item. si_id item \<noteq> itemId) (savedItemsOf n) = savedItemsOf n"
    if "n \<in> set (notebooks s)" "nb_id n = notebookId" for n
    using assms that by (auto intro!: filter_True)
  show ?thesis
    unfolding handleDeleteSavedItem_def using keep
    by (auto intro!: arg_cong [where f = "\<lambda>x. s\<lparr>notebooks := x\<rparr>"])
qed

lemma handleDeleteSavedItem_twice:
  "handleDeleteSavedItem notebookId itemId (handleDeleteSavedItem notebookId itemId s)
     = handleDeleteSavedItem notebookId itemId s"
  by (simp add: handleDeleteSavedItem_def savedItemsOf_def comp_def)

text \<open>
  C9. When no notebook with the given id holds a saved item with the given item id, the
  delete leaves every notebook's saved items collection (\<^verbatim>\<open>n.savedItems || []\<close>) as it
  was: the only thing it can change is a missing \<^verbatim>\<open>savedItems\<close> field of the addressed
  notebook, which becomes the empty array, and when every notebook has the field the whole
  state is unchanged. The handler has no failing branch. Deleting twice is the same as
  deleting once, for every id.
\<close>

theorem handleDeleteSavedItem_absent_idempotent:
  "((\<forall>n \<in> set (notebooks s). nb_id n = notebookId \<longrightarrow>
        itemId \<notin> si_id ` set (savedItemsOf n)) \<longrightarrow>
      map savedItemsOf (notebooks (handleDeleteSavedItem notebookId itemId s))
        = map savedItemsOf (notebooks s) \<and>
      handleDeleteSavedItem notebookId itemId s =
        s\<lparr>notebooks := map (\<lambda>n. if nb_id n = notebookId
                                  then n\<lparr>nb_savedItems := Some (savedItemsOf n)\<rparr> else n)
                             (notebooks s)\<rparr> \<and>
      ((\<forall>n \<in> set (notebooks s). nb_savedItems n \<noteq> None) \<longrightarrow>
         handleDeleteSavedItem notebookId itemId s = s)) \<and>
   handleDeleteSavedItem notebookId itemId (handleDeleteSavedItem notebookId itemId s)
     = handleDeleteSavedItem notebookId itemId s"
proof (intro conjI impI)
  assume absent: "\<forall>n \<in> set (notebooks s). nb_id n = notebookId \<longrightarrow>
                    itemId \<notin> si_id ` set (savedItemsOf n)"
  note eq = handleDeleteSavedItem_absent_eq [OF absent]
  show "map savedItemsOf (notebooks (handleDeleteSavedItem notebookId itemId s))
          = map savedItemsOf (notebooks s)"
    unfolding eq by (auto simp: savedItemsOf_def)
  show "handleDeleteSavedItem notebookId itemId s =
          s\<lparr>notebooks := map (\<lambda>n. if nb_id n = notebookId
                                    then n\<lparr>nb_savedItems := Some (savedItemsOf n)\<rparr> else n)
                               (notebooks s)\<rparr>"
    by (rule eq)
  assume defined: "\<forall>n \<in> set (notebooks s). nb_savedItems n \<noteq> None"
  have "map (\<lambda>n. if nb_id n = notebookId then n\<lparr>nb_savedItems := Some (savedItemsOf n)\<rparr> else n)
            (notebooks s) = notebooks s"
    using defined by (intro map_idI) (auto simp: savedItemsOf_def)
  then show "handleDeleteSavedItem notebookId itemId s = s"
    unfolding eq by simp
next
  show "handleDeleteSavedItem notebookId itemId (handleDeleteSavedItem notebookId itemId s)
          = handleDeleteSavedItem notebookId itemId s"
    by (rule handleDeleteSavedItem_twice)
qed

theorem handleDeleteSavedItem_absent_idempotent_witness:
  "map nb_id (notebooks demoSavedState) = [''a''] \<and>
   map (map si_id \<circ> savedItemsOf) (notebooks demoSavedState) = [[''saved_1'']] \<and>
   handleDeleteSavedItem ''a'' ''saved_9'' demoSavedState = demoSavedState \<and>
   handleDeleteSavedItem ''a'' ''saved_1'' (handleDeleteSavedItem ''a'' ''saved_1'' demoSavedState)
     = handleDeleteSavedItem ''a'' ''saved_1'' demoSavedState"
proof -
  have absent: "\<forall>n \<in> set (notebooks demoSavedState). nb_id n = ''a'' \<longrightarrow>
                  ''saved_9'' \<notin> si_id ` set (savedItemsOf n)"
    by (simp add: demoSavedState_def demoState_def demoNotebook_def savedItemsOf_def
        newItem_def show_nat.simps digit_char_def)
  have defined: "\<forall>n \<in> set (notebooks demoSavedState). nb_savedItems n \<noteq> None"
    by (simp add: demoSavedState_def demoState_def demoNotebook_def)
  have ids: "map (map si_id \<circ> savedItemsOf) (notebooks demoSavedState) = [[''saved_1'']]"
    by (simp add: demoSavedState_def demoState_def demoNotebook_def savedItemsOf_def
        newItem_def show_nat.simps digit_char_def)
  have nbs: "map nb_id (notebooks demoSavedState) = [''a'']"
    by (simp add: demoSavedState_def demoState_def demoNotebook_def)
  from handleDeleteSavedItem_absent_idempotent [of demoSavedState "''a''" "''saved_9''"]
    handleDeleteSavedItem_absent_idempotent [of demoSavedState "''a''" "''saved_1''"]
    absent defined ids nbs
  show ?thesis by blast
qed

subsection \<open>The mind map schemas\<close>

text \<open>
  C7, as the code has it. Both mind map schemas are finite unrollings, not recursive
  schemas. \<open>mindMapSchema\<close> allows five nested levels of \<^verbatim>\<open>children\<close> below the root,
  and the nodes of its fifth level have the single property \<^verbatim>\<open>topic\<close>, so there is no
  sixth level. The inline schema of the other \<^verbatim>\<open>generateMindMap\<close> allows two levels
  below the root (three levels counting the root, as its prompt asks), and the nodes of its
  second level have the single property \<^verbatim>\<open>topic\<close>.
\<close>

theorem mindMap_schema_levels:
  "childrenLevels mindMapSchema = 5 \<and>
   level 5 mindMapSchema = Some (OBJECT [(''topic'', STRING)] [''topic'']) \<and>
   level 6 mindMapSchema = None \<and>
   childrenLevels mindMapNodeSchema = 2 \<and>
   level 2 mindMapNodeSchema = Some (OBJECT [(''topic'', STRING)] []) \<and>
   level 3 mindMapNodeSchema = None"
  by (simp add: mindMapSchema_def mindMapNodeSchemaL1_def mindMapNodeSchemaL2_def
      mindMapNodeSchemaL3_def mindMapNodeSchemaL4_def mindMapNodeSchemaL5_def
      mindMapNodeSchema_def numeral_eq_Suc)

text \<open>
  The ceiling of five levels does not hold of the inline schema of the other
  \<^verbatim>\<open>generateMindMap\<close>: its ceiling is two.
\<close>

theorem mindMapNodeSchema_not_five_levels: "childrenLevels mindMapNodeSchema \<noteq> 5"
  by (simp add: mindMapNodeSchema_def)

subsection \<open>The source registry\<close>









subsection \<open>The saved items library\<close>

lemma libraryOp_view:
  "map (\<lambda>n. (nb_id n, f (nb_id n) (savedItemsOf n))) (notebooks (libraryOp op s)) =
   map (\<lambda>n. (nb_id n, f (nb_id n) (applyOp (nb_id n) op (savedItemsOf n)))) (notebooks s)"
  by (cases op)
    (auto simp: handleSaveItemToNotebook_def handleDeleteSavedItem_def savedItemsOf_def)

lemma libraryOps_view:
  "map (\<lambda>n. (nb_id n, savedItemsOf n)) (notebooks (libraryOps ops s)) =
   map (\<lambda>n. (nb_id n, itemsAfter (nb_id n) ops (savedItemsOf n))) (notebooks s)"
proof (induction ops arbitrary: s)
  case Nil
  show ?case by (simp add: libraryOps_def itemsAfter_def)
next
  case (Cons op ops)
  have "libraryOps (op # ops) s = libraryOps ops (libraryOp op s)"
    by (simp add: libraryOps_def)
  moreover have "itemsAfter nid (op # ops) items = itemsAfter nid ops (applyOp nid op items)"
    for nid items by (simp add: itemsAfter_def)
  ultimately show ?case
    using libraryOp_view [of "\<lambda>nid. itemsAfter nid ops" op s] by (simp add: Cons.IH)
qed

lemma itemsAfter_owner:
  "\<forall>i \<in> set items. si_notebookId i = nid \<Longrightarrow>
   \<forall>i \<in> set (itemsAfter nid ops items). si_notebookId i = nid"
proof (induction ops arbitrary: items)
  case Nil
  then show ?case by (simp add: itemsAfter_def)
next
  case (Cons op ops)
  have "\<forall>i \<in> set (applyOp nid op items). si_notebookId i = nid"
    using Cons.prems by (cases op) (auto simp: newItem_def)
  from Cons.IH [OF this] show ?case by (simp add: itemsAfter_def)
qed

lemma filter_distinct_length:
  "distinct (map f xs) \<Longrightarrow>
   length (filter (\<lambda>x. f x \<noteq> a) xs) + (if a \<in> f ` set xs then 1 else 0) = length xs"
  by (induction xs) auto

lemma itemsAfter_length:
  "distinct (map si_id items) \<Longrightarrow> distinct (saveTimes nid ops) \<Longrightarrow>
   \<forall>t \<in> set (saveTimes nid ops). ''saved_'' @ show_nat t \<notin> si_id ` set items \<Longrightarrow>
   length (itemsAfter nid ops items) + matchingDeletes nid ops items
     = length items + saveCalls nid ops"
proof (induction ops arbitrary: items)
  case Nil
  show ?case by (simp add: itemsAfter_def saveCalls_def)
next
  case (Cons op ops)
  show ?case
  proof (cases op)
    case (Save notebookId itemData now stamp)
    show ?thesis
    proof (cases "nid = notebookId")
      case True
      let ?items = "items @ [newItem notebookId itemData now stamp]"
      have d: "distinct (map si_id ?items)"
        using Cons.prems Save True by (auto simp: newItem_def)
      have t: "distinct (saveTimes nid ops)" "now \<notin> set (saveTimes nid ops)"
        using Cons.prems(2) Save True by auto
      have f: "\<forall>t \<in> set (saveTimes nid ops). ''saved_'' @ show_nat t \<notin> si_id ` set ?items"
        using Cons.prems(3) Save True t(2) by (auto simp: newItem_def dest: show_nat_inj)
      from Cons.IH [OF d t(1) f] Save True show ?thesis
        by (simp add: itemsAfter_def saveCalls_def)
    next
      case False
      with Cons.IH [of items] Cons.prems Save show ?thesis
        by (simp add: itemsAfter_def saveCalls_def)
    qed
  next
    case (Delete notebookId itemId)
    show ?thesis
    proof (cases "nid = notebookId")
      case True
      let ?items = "filter (\<lambda>item. si_id item \<noteq> itemId) items"
      have d: "distinct (map si_id ?items)"
        using Cons.prems(1) by (simp add: distinct_map_filter)
      have t: "distinct (saveTimes nid ops)" using Cons.prems(2) Delete by simp
      have f: "\<forall>t \<in> set (saveTimes nid ops). ''saved_'' @ show_nat t \<notin> si_id ` set ?items"
        using Cons.prems(3) Delete by auto
      from Cons.IH [OF d t f] filter_distinct_length [OF Cons.prems(1), of itemId] Delete True
      show ?thesis
        by (simp add: itemsAfter_def saveCalls_def split: if_splits)
    next
      case False
      with Cons.IH [of items] Cons.prems Delete show ?thesis
        by (simp add: itemsAfter_def saveCalls_def)
    qed
  qed
qed


text \<open>
  C6, as the code has it. Let any interleaving of save and delete calls, on any notebooks,
  run on a state, and take the notebook at a position \<open>j\<close> of the list. Its id stays, and
  its saved items are those that the calls addressed to its id leave. If every saved item
  had the notebook's id as its \<^verbatim>\<open>notebookId\<close> before, every one has it after. If the
  save calls on the notebook read pairwise distinct clock values, and the ids they produce
  are not among the old item ids, which are distinct, then the new length plus the number
  of matching delete calls is the old length plus the number of save calls; from an empty
  collection, the length is the number of save calls minus the number of matching delete
  calls.
\<close>

theorem libraryOps_saved_items:
  "j < length (notebooks s) \<longrightarrow>
   (let n = notebooks s ! j; n' = notebooks (libraryOps ops s) ! j in
      length (notebooks (libraryOps ops s)) = length (notebooks s) \<and>
      nb_id n' = nb_id n \<and>
      savedItemsOf n' = itemsAfter (nb_id n) ops (savedItemsOf n) \<and>
      ((\<forall>i \<in> set (savedItemsOf n). si_notebookId i = nb_id n) \<longrightarrow>
         (\<forall>i \<in> set (savedItemsOf n'). si_notebookId i = nb_id n')) \<and>
      (distinct (map si_id (savedItemsOf n)) \<and> distinct (saveTimes (nb_id n) ops) \<and>
       (\<forall>t \<in> set (saveTimes (nb_id n) ops).
           ''saved_'' @ show_nat t \<notin> si_id ` set (savedItemsOf n)) \<longrightarrow>
         length (savedItemsOf n') + matchingDeletes (nb_id n) ops (savedItemsOf n)
           = length (savedItemsOf n) + saveCalls (nb_id n) ops) \<and>
      (savedItemsOf n = [] \<and> distinct (saveTimes (nb_id n) ops) \<longrightarrow>
         length (savedItemsOf n')
           = saveCalls (nb_id n) ops - matchingDeletes (nb_id n) ops []))"
proof
  assume j: "j < length (notebooks s)"
  define n where "n = notebooks s ! j"
  define n' where "n' = notebooks (libraryOps ops s) ! j"
  note view = libraryOps_view [of ops s]
  from arg_cong [OF view, of length]
  have len: "length (notebooks (libraryOps ops s)) = length (notebooks s)" by simp
  from arg_cong [OF view, of "\<lambda>l. l ! j"] j len
  have at: "nb_id n' = nb_id n" "savedItemsOf n' = itemsAfter (nb_id n) ops (savedItemsOf n)"
    by (simp_all add: n_def n'_def)
  have owner: "\<forall>i \<in> set (savedItemsOf n'). si_notebookId i = nb_id n'"
    if "\<forall>i \<in> set (savedItemsOf n). si_notebookId i = nb_id n"
    using itemsAfter_owner [OF that, of ops] at by simp
  have count: "length (savedItemsOf n') + matchingDeletes (nb_id n) ops (savedItemsOf n)
                 = length (savedItemsOf n) + saveCalls (nb_id n) ops"
    if "distinct (map si_id (savedItemsOf n))" "distinct (saveTimes (nb_id n) ops)"
       "\<forall>t \<in> set (saveTimes (nb_id n) ops).
           ''saved_'' @ show_nat t \<notin> si_id ` set (savedItemsOf n)"
    using itemsAfter_length [OF that] at by simp
  have empty: "length (savedItemsOf n') = saveCalls (nb_id n) ops - matchingDeletes (nb_id n) ops []"
    if "savedItemsOf n = []" "distinct (saveTimes (nb_id n) ops)"
    using itemsAfter_length [of "[]" "nb_id n" ops] that at by simp
  from len at owner count empty
  show "let n = notebooks s ! j; n' = notebooks (libraryOps ops s) ! j in
      length (notebooks (libraryOps ops s)) = length (notebooks s) \<and>
      nb_id n' = nb_id n \<and>
      savedItemsOf n' = itemsAfter (nb_id n) ops (savedItemsOf n) \<and>
      ((\<forall>i \<in> set (savedItemsOf n). si_notebookId i = nb_id n) \<longrightarrow>
         (\<forall>i \<in> set (savedItemsOf n'). si_notebookId i = nb_id n')) \<and>
      (distinct (map si_id (savedItemsOf n)) \<and> distinct (saveTimes (nb_id n) ops) \<and>
       (\<forall>t \<in> set (saveTimes (nb_id n) ops).
           ''saved_'' @ show_nat t \<notin> si_id ` set (savedItemsOf n)) \<longrightarrow>
         length (savedItemsOf n') + matchingDeletes (nb_id n) ops (savedItemsOf n)
           = length (savedItemsOf n) + saveCalls (nb_id n) ops) \<and>
      (savedItemsOf n = [] \<and> distinct (saveTimes (nb_id n) ops) \<longrightarrow>
         length (savedItemsOf n')
           = saveCalls (nb_id n) ops - matchingDeletes (nb_id n) ops [])"
    unfolding Let_def n_def [symmetric] n'_def [symmetric] by blast
qed

theorem libraryOps_saved_items_witness:
  "map (map si_id \<circ> savedItemsOf) (notebooks (libraryOps demoOps
      (demoState [demoNotebook ''a'' [], demoNotebook ''b'' []] (Some ''a''))))
     = [[''saved_6''], [''saved_5'']] \<and>
   map (map si_notebookId \<circ> savedItemsOf) (notebooks (libraryOps demoOps
      (demoState [demoNotebook ''a'' [], demoNotebook ''b'' []] (Some ''a''))))
     = [[''a''], [''b'']] \<and>
   saveTimes ''a'' demoOps = [5, 6] \<and>
   saveCalls ''a'' demoOps = 2 \<and>
   matchingDeletes ''a'' demoOps [] = 1 \<and>
   length (savedItemsOf (notebooks (libraryOps demoOps
      (demoState [demoNotebook ''a'' [], demoNotebook ''b'' []] (Some ''a''))) ! 0))
     = saveCalls ''a'' demoOps - matchingDeletes ''a'' demoOps []"
proof -
  let ?s = "demoState [demoNotebook ''a'' [], demoNotebook ''b'' []] (Some ''a'')"
  have sn: "show_nat 5 = ''5''" "show_nat 6 = ''6''"
    by (simp_all add: show_nat.simps digit_char_def)
  have ids: "map (map si_id \<circ> savedItemsOf) (notebooks (libraryOps demoOps ?s))
               = [[''saved_6''], [''saved_5'']]"
    by (simp add: demoOps_def libraryOps_def handleSaveItemToNotebook_def
        handleDeleteSavedItem_def demoState_def demoNotebook_def savedItemsOf_def newItem_def sn)
  have owners: "map (map si_notebookId \<circ> savedItemsOf) (notebooks (libraryOps demoOps ?s))
                  = [[''a''], [''b'']]"
    by (simp add: demoOps_def libraryOps_def handleSaveItemToNotebook_def
        handleDeleteSavedItem_def demoState_def demoNotebook_def savedItemsOf_def newItem_def sn)
  have times: "saveTimes ''a'' demoOps = [5, 6]"
    by (simp add: demoOps_def)
  have counts: "saveCalls ''a'' demoOps = 2" "matchingDeletes ''a'' demoOps [] = 1"
    by (simp_all add: demoOps_def saveCalls_def newItem_def sn)
  have j: "0 < length (notebooks ?s)" and n: "nb_id (notebooks ?s ! 0) = ''a''"
    and e: "savedItemsOf (notebooks ?s ! 0) = []"
    by (simp_all add: demoState_def demoNotebook_def savedItemsOf_def)
  have d: "distinct (saveTimes ''a'' demoOps)"
    by (simp add: times)
  from libraryOps_saved_items [of 0 ?s demoOps, unfolded Let_def, THEN mp, OF j]
  have "savedItemsOf (notebooks ?s ! 0) = [] \<and>
        distinct (saveTimes (nb_id (notebooks ?s ! 0)) demoOps) \<longrightarrow>
        length (savedItemsOf (notebooks (libraryOps demoOps ?s) ! 0))
          = saveCalls (nb_id (notebooks ?s ! 0)) demoOps
            - matchingDeletes (nb_id (notebooks ?s ! 0)) demoOps []"
    by blast
  with e d have "length (savedItemsOf (notebooks (libraryOps demoOps ?s) ! 0))
          = saveCalls ''a'' demoOps - matchingDeletes ''a'' demoOps []"
    unfolding n by blast
  with ids owners times counts show ?thesis by blast
qed

text \<open>
  Two saves that read the same clock value share an id, and one delete removes both: the
  collection is empty after two save calls and one matching delete call.
\<close>

theorem libraryOps_same_clock_reading_length:
  "length (concat (map savedItemsOf (notebooks (libraryOps sameTickOps
      (demoState [demoNotebook ''a'' []] (Some ''a''))))))
   \<noteq> saveCalls ''a'' sameTickOps - matchingDeletes ''a'' sameTickOps []"
proof -
  have sn: "show_nat 5 = ''5''"
    by (simp add: show_nat.simps digit_char_def)
  have l: "length (concat (map savedItemsOf (notebooks (libraryOps sameTickOps
          (demoState [demoNotebook ''a'' []] (Some ''a'')))))) = 0"
    by (simp add: sameTickOps_def libraryOps_def handleSaveItemToNotebook_def
        handleDeleteSavedItem_def demoState_def demoNotebook_def savedItemsOf_def newItem_def sn)
  have c: "saveCalls ''a'' sameTickOps = 2" "matchingDeletes ''a'' sameTickOps [] = 1"
    by (simp_all add: sameTickOps_def saveCalls_def newItem_def sn)
  show ?thesis unfolding l c by simp
qed

subsection \<open>The pieces of handleSendMessage\<close>

lemma begin_rejected:
  "activeNotebook s = None \<or> isLoading s \<Longrightarrow> handleSendMessage_begin message ty clock s = (s, None)"
  by (auto simp: handleSendMessage_begin_def split: option.splits)

lemma begin_accepted:
  "activeNotebook s = Some nb \<Longrightarrow> \<not> isLoading s \<Longrightarrow>
   handleSendMessage_begin message ty clock s =
     (updateChat (nb_id nb) (userMessage message (t_user clock)) (s\<lparr>isLoading := True\<rparr>),
      Some (pendingOf nb message ty clock))"
  by (simp add: handleSendMessage_begin_def)

lemma logOf_updateChat:
  "logOf (updateChat i m s) k = (if k = i then logOf s i @ [m] else logOf s k)"
  by (simp add: logOf_def updateChat_def)

lemma logOf_isLoading [simp]: "logOf (s\<lparr>isLoading := b\<rparr>) k = logOf s k"
  by (simp add: logOf_def)

lemma updateChat_twice:
  "updateChat i m2 (updateChat i m1 s) =
     s\<lparr>chatHistory := (chatHistory s)(i \<mapsto> logOf s i @ [m1, m2])\<rparr>"
  by (simp add: updateChat_def logOf_def)

lemma settle_eq:
  "handleSendMessage_settle clock p outcome s =
     (updateChat (p_notebookId p)
        (case outcome of Inr response \<Rightarrow> response | Inl e \<Rightarrow> errorMessage (t_error clock)) s)
     \<lparr>isLoading := False\<rparr>"
  by (simp add: handleSendMessage_settle_def split: sum.splits)

lemma handleSendMessage_accepted:
  assumes "activeNotebook s = Some nb" "\<not> isLoading s"
  shows "handleSendMessage svc message ty clock s =
     s\<lparr>chatHistory := (chatHistory s)(nb_id nb \<mapsto> logOf s (nb_id nb) @
          [userMessage message (t_user clock),
           case handleSendMessage_call svc clock (pendingOf nb message ty clock) of
             Inr response \<Rightarrow> response | Inl e \<Rightarrow> errorMessage (t_error clock)])\<rparr>"
proof -
  have p: "p_notebookId (pendingOf nb message ty clock) = nb_id nb" by (simp add: pendingOf_def)
  have "(updateChat i m2 (updateChat i m1 (s\<lparr>isLoading := True\<rparr>)))\<lparr>isLoading := False\<rparr> =
        s\<lparr>chatHistory := (chatHistory s)(i \<mapsto> logOf s i @ [m1, m2])\<rparr>" for i m1 m2
    using assms(2) by (cases s) (simp add: updateChat_def logOf_def)
  then show ?thesis
    unfolding handleSendMessage_def begin_accepted [OF assms] settle_eq
    by (simp add: p)
qed

lemma failingService_call: "handleSendMessage_call (failingService e) clock p = Inl e"
  by (cases "p_type p") (simp_all add: handleSendMessage_call_def failingService_def awaited_def)

lemma demo_active:
  "activeNotebook (demoState (demoNotebook i srcs # nbs) (Some i)) = Some (demoNotebook i srcs)"
  "\<not> isLoading (demoState nbs' a)"
  "logOf (demoState nbs' a) k = []"
  by (simp_all add: activeNotebook_def demoState_def demoNotebook_def logOf_def)



lemma storedQuizQuestions_Nil: "storedQuizQuestions [] = []"
  by (simp add: storedQuizQuestions_def)

lemma demo_nb_id: "nb_id (demoNotebook i srcs) = i"
  by (simp add: demoNotebook_def)

lemma storedQuizQuestions_append:
  "storedQuizQuestions (xs @ ys) = storedQuizQuestions xs @ storedQuizQuestions ys"
  by (simp add: storedQuizQuestions_def)

subsection \<open>The guard of handleSendMessage\<close>




subsection \<open>The user message\<close>

text \<open>
  C3. For an accepted intent (an active notebook, the busy flag clear), the state in which
  the service call is issued already holds the user message, with role \<^verbatim>\<open>user\<close> and the
  text submitted, at the end of the active notebook's log. Whatever the call settles to,
  and for every service, the log after the handler still holds it at that position.
\<close>

theorem user_message_recorded_before_call:
  "activeNotebook s = Some nb \<and> \<not> isLoading s \<longrightarrow>
     snd (handleSendMessage_begin message ty clock s) = Some (pendingOf nb message ty clock) \<and>
     logOf (fst (handleSendMessage_begin message ty clock s)) (nb_id nb)
       = logOf s (nb_id nb) @ [userMessage message (t_user clock)] \<and>
     msg_role (userMessage message (t_user clock)) = User \<and>
     msg_text (userMessage message (t_user clock)) = message \<and>
     (\<forall>outcome. take (Suc (length (logOf s (nb_id nb))))
        (logOf (handleSendMessage_settle clock (pendingOf nb message ty clock) outcome
                  (fst (handleSendMessage_begin message ty clock s))) (nb_id nb))
       = logOf s (nb_id nb) @ [userMessage message (t_user clock)]) \<and>
     (\<forall>svc. take (Suc (length (logOf s (nb_id nb))))
        (logOf (handleSendMessage svc message ty clock s) (nb_id nb))
       = logOf s (nb_id nb) @ [userMessage message (t_user clock)])"
proof (intro impI)
  assume "activeNotebook s = Some nb \<and> \<not> isLoading s"
  then have a: "activeNotebook s = Some nb" "\<not> isLoading s" by simp_all
  note b = begin_accepted [OF a]
  have p: "p_notebookId (pendingOf nb message ty clock) = nb_id nb" by (simp add: pendingOf_def)
  show "snd (handleSendMessage_begin message ty clock s) = Some (pendingOf nb message ty clock) \<and>
     logOf (fst (handleSendMessage_begin message ty clock s)) (nb_id nb)
       = logOf s (nb_id nb) @ [userMessage message (t_user clock)] \<and>
     msg_role (userMessage message (t_user clock)) = User \<and>
     msg_text (userMessage message (t_user clock)) = message \<and>
     (\<forall>outcome. take (Suc (length (logOf s (nb_id nb))))
        (logOf (handleSendMessage_settle clock (pendingOf nb message ty clock) outcome
                  (fst (handleSendMessage_begin message ty clock s))) (nb_id nb))
       = logOf s (nb_id nb) @ [userMessage message (t_user clock)]) \<and>
     (\<forall>svc. take (Suc (length (logOf s (nb_id nb))))
        (logOf (handleSendMessage svc message ty clock s) (nb_id nb))
       = logOf s (nb_id nb) @ [userMessage message (t_user clock)])"
    by (simp add: b settle_eq p logOf_updateChat handleSendMessage_accepted [OF a])
      (simp add: userMessage_def logOf_def)
qed

theorem user_message_recorded_before_call_witness:
  "snd (handleSendMessage_begin ''Hello'' Chat demoClock
          (demoState [demoNotebook ''a'' [demoSource]] (Some ''a'')))
     = Some (pendingOf (demoNotebook ''a'' [demoSource]) ''Hello'' Chat demoClock) \<and>
   logOf (fst (handleSendMessage_begin ''Hello'' Chat demoClock
          (demoState [demoNotebook ''a'' [demoSource]] (Some ''a'')))) ''a''
     = [userMessage ''Hello'' 1000] \<and>
   take 1 (logOf (handleSendMessage (failingService BackendFailure) ''Hello'' Chat demoClock
          (demoState [demoNotebook ''a'' [demoSource]] (Some ''a''))) ''a'')
     = [userMessage ''Hello'' 1000]"
proof -
  let ?s = "demoState [demoNotebook ''a'' [demoSource]] (Some ''a'')"
  let ?nb = "demoNotebook ''a'' [demoSource]"
  have a: "activeNotebook ?s = Some ?nb \<and> \<not> isLoading ?s" by (simp add: demo_active)
  have v: "nb_id ?nb = ''a''" "logOf ?s ''a'' = []" "t_user demoClock = 1000"
    by (simp_all add: demoNotebook_def demo_active demoClock_def)
  from user_message_recorded_before_call [of ?s ?nb "''Hello''" Chat demoClock, THEN mp, OF a]
  show ?thesis unfolding v by simp
qed

subsection \<open>A failed generation call\<close>

lemma call_rejected_iff:
  "handleSendMessage_call svc clock p = Inl e \<longleftrightarrow>
     awaitedRejection svc p = Some e \<or> (mapThrows svc p \<and> e = TypeError)"
  by (cases "p_type p")
    (auto simp: handleSendMessage_call_def awaitedRejection_def mapThrows_def awaited_def
       rejection_def Let_def split: sum.splits Parsed.splits Json.splits)

lemma call_resolved_message:
  "handleSendMessage_call svc clock p = Inr r \<Longrightarrow> msg_role r = Model \<and> msg_contentType r \<noteq> ERROR"
  by (cases "p_type p")
    (auto simp: handleSendMessage_call_def awaited_def modelMessage_def Let_def
       split: sum.splits Parsed.splits Json.splits)

lemma call_settles:
  "(\<exists>e. handleSendMessage_call svc clock p = Inl e) \<longleftrightarrow>
     awaitedRejection svc p \<noteq> None \<or> mapThrows svc p"
  using call_rejected_iff [of svc clock p] by auto

lemma generateJsonContent_resolves:
  "generateContent prompt schema = Inr text \<Longrightarrow> trim text \<noteq> [] \<Longrightarrow> parse (trim text) = Some v \<Longrightarrow>
   generateJsonContent trim parse generateContent prompt schema = Inr v"
  by (simp add: generateJsonContent_def)

lemma generateJsonContent_rejects:
  "(\<exists>e. generateJsonContent trim parse generateContent prompt schema = Inl e) \<longleftrightarrow>
     (\<exists>e. generateContent prompt schema = Inl e) \<or>
     (\<exists>text. generateContent prompt schema = Inr text \<and>
             (trim text = [] \<or> parse (trim text) = None))"
  by (auto simp: generateJsonContent_def Let_def split: sum.splits option.splits)

text \<open>
  C2, as the code has it. Take an accepted intent. If the service promise that the handler
  awaits is rejected, with any failure, or the handling itself throws (the \<^verbatim>\<open>flashcards\<close>
  payload is not an array), the log of the active notebook grows by exactly two messages:
  the user message and one model message of content type \<^verbatim>\<open>ERROR\<close>. The error message
  carries a fixed text and no content data, so neither of the two is of a structured type
  or carries data, and the failure itself is stored nowhere; the rest of the state is as
  before the call, and in whatever state the rejection arrives the \<^verbatim>\<open>catch\<close> block
  appends that one error message to the log and nothing else. Otherwise the call resolves
  and the handler appends the user message and the response of the intent, which is not an
  \<^verbatim>\<open>ERROR\<close> message. \<^verbatim>\<open>generateJsonContent\<close> rejects exactly when the backend call is
  rejected or the trimmed text is empty or does not parse; a text that parses resolves
  to the parsed value, whatever the schema and the value are: nothing validates the value
  against the schema.
\<close>

theorem failed_call_appends_one_error_message:
  "(activeNotebook s = Some nb \<and> \<not> isLoading s \<and>
    (awaitedRejection svc (pendingOf nb message ty clock) = Some e \<or>
     mapThrows svc (pendingOf nb message ty clock)) \<longrightarrow>
     logOf (handleSendMessage svc message ty clock s) (nb_id nb)
       = logOf s (nb_id nb) @ [userMessage message (t_user clock), errorMessage (t_error clock)] \<and>
     length (logOf (handleSendMessage svc message ty clock s) (nb_id nb))
       = length (logOf s (nb_id nb)) + 2 \<and>
     msg_role (errorMessage (t_error clock)) = Model \<and>
     msg_contentType (errorMessage (t_error clock)) = ERROR \<and>
     msg_contentData (errorMessage (t_error clock)) = None \<and>
     msg_text (errorMessage (t_error clock))
       = ''Sorry, I encountered an error. Please check the console for details.'' \<and>
     length (filter (\<lambda>m. msg_contentType m = ERROR)
        [userMessage message (t_user clock), errorMessage (t_error clock)]) = 1 \<and>
     filter (\<lambda>m. structuredType (msg_contentType m) \<or> msg_contentData m \<noteq> None)
        [userMessage message (t_user clock), errorMessage (t_error clock)] = [] \<and>
     handleSendMessage svc message ty clock s
       = s\<lparr>chatHistory := (chatHistory s)(nb_id nb \<mapsto>
            logOf s (nb_id nb) @ [userMessage message (t_user clock), errorMessage (t_error clock)])\<rparr> \<and>
     (\<forall>s'' e'. logOf (handleSendMessage_settle clock (pendingOf nb message ty clock) (Inl e') s'')
               (nb_id nb)
             = logOf s'' (nb_id nb) @ [errorMessage (t_error clock)])) \<and>
   (activeNotebook s = Some nb \<and> \<not> isLoading s \<and>
    awaitedRejection svc (pendingOf nb message ty clock) = None \<and>
    \<not> mapThrows svc (pendingOf nb message ty clock) \<longrightarrow>
     (\<exists>r. handleSendMessage_call svc clock (pendingOf nb message ty clock) = Inr r \<and>
          logOf (handleSendMessage svc message ty clock s) (nb_id nb)
            = logOf s (nb_id nb) @ [userMessage message (t_user clock), r] \<and>
          msg_role r = Model \<and> msg_contentType r \<noteq> ERROR)) \<and>
   (generateContent prompt schema = Inr text \<and> trim text \<noteq> [] \<and> parse (trim text) = Some v \<longrightarrow>
      generateJsonContent trim parse generateContent prompt schema = Inr v) \<and>
   ((\<exists>e. generateJsonContent trim parse generateContent prompt schema = Inl e) \<longleftrightarrow>
      (\<exists>e. generateContent prompt schema = Inl e) \<or>
      (\<exists>text. generateContent prompt schema = Inr text \<and>
              (trim text = [] \<or> parse (trim text) = None)))"
proof (intro conjI impI)
  assume "activeNotebook s = Some nb \<and> \<not> isLoading s \<and>
    (awaitedRejection svc (pendingOf nb message ty clock) = Some e \<or>
     mapThrows svc (pendingOf nb message ty clock))"
  then have a: "activeNotebook s = Some nb" "\<not> isLoading s"
    and "awaitedRejection svc (pendingOf nb message ty clock) \<noteq> None \<or>
         mapThrows svc (pendingOf nb message ty clock)" by auto
  then obtain e' where f: "handleSendMessage_call svc clock (pendingOf nb message ty clock) = Inl e'"
    using call_settles [of svc clock "pendingOf nb message ty clock"] by blast
  show eq: "handleSendMessage svc message ty clock s
       = s\<lparr>chatHistory := (chatHistory s)(nb_id nb \<mapsto>
            logOf s (nb_id nb) @ [userMessage message (t_user clock), errorMessage (t_error clock)])\<rparr>"
    by (simp add: handleSendMessage_accepted [OF a] f)
  show l: "logOf (handleSendMessage svc message ty clock s) (nb_id nb)
       = logOf s (nb_id nb) @ [userMessage message (t_user clock), errorMessage (t_error clock)]"
    unfolding eq by (simp add: logOf_def)
  show "length (logOf (handleSendMessage svc message ty clock s) (nb_id nb))
       = length (logOf s (nb_id nb)) + 2"
    unfolding l by simp
  show "msg_role (errorMessage (t_error clock)) = Model"
     "msg_contentType (errorMessage (t_error clock)) = ERROR"
     "msg_contentData (errorMessage (t_error clock)) = None"
     "msg_text (errorMessage (t_error clock))
       = ''Sorry, I encountered an error. Please check the console for details.''"
    by (simp_all add: errorMessage_def modelMessage_def)
  show "length (filter (\<lambda>m. msg_contentType m = ERROR)
        [userMessage message (t_user clock), errorMessage (t_error clock)]) = 1"
     "filter (\<lambda>m. structuredType (msg_contentType m) \<or> msg_contentData m \<noteq> None)
        [userMessage message (t_user clock), errorMessage (t_error clock)] = []"
    by (simp_all add: errorMessage_def modelMessage_def userMessage_def structuredType_def)
  have p: "p_notebookId (pendingOf nb message ty clock) = nb_id nb"
    by (simp add: pendingOf_def)
  show "\<forall>s'' e'. logOf (handleSendMessage_settle clock (pendingOf nb message ty clock) (Inl e') s'')
               (nb_id nb)
             = logOf s'' (nb_id nb) @ [errorMessage (t_error clock)]"
    by (simp add: settle_eq p logOf_updateChat)
next
  assume "activeNotebook s = Some nb \<and> \<not> isLoading s \<and>
    awaitedRejection svc (pendingOf nb message ty clock) = None \<and>
    \<not> mapThrows svc (pendingOf nb message ty clock)"
  then have a: "activeNotebook s = Some nb" "\<not> isLoading s"
    and n: "\<not> (\<exists>e. handleSendMessage_call svc clock (pendingOf nb message ty clock) = Inl e)"
    using call_settles [of svc clock "pendingOf nb message ty clock"] by auto
  then obtain r where r: "handleSendMessage_call svc clock (pendingOf nb message ty clock) = Inr r"
    by (cases "handleSendMessage_call svc clock (pendingOf nb message ty clock)") auto
  have "logOf (handleSendMessage svc message ty clock s) (nb_id nb)
            = logOf s (nb_id nb) @ [userMessage message (t_user clock), r]"
    by (simp add: handleSendMessage_accepted [OF a] r logOf_def)
  with r call_resolved_message [OF r]
  show "\<exists>r. handleSendMessage_call svc clock (pendingOf nb message ty clock) = Inr r \<and>
          logOf (handleSendMessage svc message ty clock s) (nb_id nb)
            = logOf s (nb_id nb) @ [userMessage message (t_user clock), r] \<and>
          msg_role r = Model \<and> msg_contentType r \<noteq> ERROR"
    by blast
next
  assume "generateContent prompt schema = Inr text \<and> trim text \<noteq> [] \<and> parse (trim text) = Some v"
  then show "generateJsonContent trim parse generateContent prompt schema = Inr v"
    by (simp add: generateJsonContent_resolves)
next
  show "(\<exists>e. generateJsonContent trim parse generateContent prompt schema = Inl e) \<longleftrightarrow>
      (\<exists>e. generateContent prompt schema = Inl e) \<or>
      (\<exists>text. generateContent prompt schema = Inr text \<and>
              (trim text = [] \<or> parse (trim text) = None))"
    by (rule generateJsonContent_rejects)
qed

lemma failingService_rejection: "awaitedRejection (failingService e) p = Some e"
  by (cases "p_type p") (simp_all add: awaitedRejection_def failingService_def rejection_def)

theorem failed_call_appends_one_error_message_witness:
  "awaitedRejection (failingService InvalidFormatFailure)
      (pendingOf (demoNotebook ''a'' [demoSource]) ''Generate quiz for this notebook.'' Quiz demoClock)
     = Some InvalidFormatFailure \<and>
   logOf (handleSendMessage (failingService InvalidFormatFailure)
            ''Generate quiz for this notebook.'' Quiz demoClock
            (demoState [demoNotebook ''a'' [demoSource]] (Some ''a''))) ''a''
     = [userMessage ''Generate quiz for this notebook.'' 1000, errorMessage 1007] \<and>
   map msg_contentType (logOf (handleSendMessage (failingService InvalidFormatFailure)
            ''Generate quiz for this notebook.'' Quiz demoClock
            (demoState [demoNotebook ''a'' [demoSource]] (Some ''a''))) ''a'')
     = [TEXT, ERROR] \<and>
   generateJsonContent (\<lambda>text. text) emptyObjectParse (\<lambda>prompt schema. Inr ''not json'') ''quiz''
      quizSchema = Inl InvalidFormatFailure"
proof -
  let ?s = "demoState [demoNotebook ''a'' [demoSource]] (Some ''a'')"
  let ?nb = "demoNotebook ''a'' [demoSource]"
  let ?m = "''Generate quiz for this notebook.''"
  have f: "awaitedRejection (failingService InvalidFormatFailure)
             (pendingOf ?nb ?m Quiz demoClock) = Some InvalidFormatFailure"
    by (rule failingService_rejection)
  have a: "activeNotebook ?s = Some ?nb \<and> \<not> isLoading ?s \<and>
           (awaitedRejection (failingService InvalidFormatFailure)
              (pendingOf ?nb ?m Quiz demoClock) = Some InvalidFormatFailure \<or>
            mapThrows (failingService InvalidFormatFailure) (pendingOf ?nb ?m Quiz demoClock))"
    by (simp add: demo_active f)
  have v: "nb_id ?nb = ''a''" "logOf ?s ''a'' = []" "t_user demoClock = 1000"
    "t_error demoClock = 1007"
    by (simp_all add: demoNotebook_def demo_active demoClock_def)
  from failed_call_appends_one_error_message
         [of ?s ?nb "failingService InvalidFormatFailure" ?m Quiz demoClock InvalidFormatFailure,
          THEN conjunct1, THEN mp, OF a, THEN conjunct1, unfolded v]
  have l: "logOf (handleSendMessage (failingService InvalidFormatFailure) ?m Quiz demoClock ?s) ''a''
     = [userMessage ?m 1000, errorMessage 1007]"
    by simp
  have g: "generateJsonContent (\<lambda>text. text) emptyObjectParse (\<lambda>prompt schema. Inr ''not json'')
             ''quiz'' quizSchema = Inl InvalidFormatFailure"
    by (simp add: generateJsonContent_def emptyObjectParse_def)
  from f l g show ?thesis
    by (simp add: userMessage_def errorMessage_def modelMessage_def)
qed

text \<open>
  The backend answers a quiz request with the text of the empty object. The text parses,
  the value is not an array as the quiz schema asks, and the handler stores it in a
  \<^verbatim>\<open>QUIZ\<close> message: the log holds no \<^verbatim>\<open>ERROR\<close> message.
\<close>

theorem unfit_payload_stored_without_error:
  "generateJsonContent (\<lambda>text. text) emptyObjectParse (\<lambda>prompt schema. Inr ''{}'') ''quiz''
      quizSchema = Inr (JObject []) \<and>
   \<not> typeMatches quizSchema (JObject []) \<and>
   generateQuiz emptyObjectService [demoSource] = Inr (Other (JObject [])) \<and>
   logOf (handleSendMessage emptyObjectService ''Generate quiz for this notebook.'' Quiz demoClock
            (demoState [demoNotebook ''a'' [demoSource]] (Some ''a''))) ''a''
     = [userMessage ''Generate quiz for this notebook.'' 1000,
        modelMessage ''msg_1001'' ''Here is your quiz:'' QUIZ (Some (JsonData (JObject [])))] \<and>
   filter (\<lambda>m. msg_contentType m = ERROR)
     (logOf (handleSendMessage emptyObjectService ''Generate quiz for this notebook.'' Quiz demoClock
            (demoState [demoNotebook ''a'' [demoSource]] (Some ''a''))) ''a'') = []"
proof -
  let ?s = "demoState [demoNotebook ''a'' [demoSource]] (Some ''a'')"
  let ?nb = "demoNotebook ''a'' [demoSource]"
  let ?m = "''Generate quiz for this notebook.''"
  have sn: "show_nat 1001 = ''1001''" by (simp add: show_nat.simps digit_char_def)
  have g: "generateJsonContent (\<lambda>text. text) emptyObjectParse (\<lambda>prompt schema. Inr ''{}'') ''quiz''
      quizSchema = Inr (JObject [])"
    by (simp add: generateJsonContent_def emptyObjectParse_def)
  have t: "\<not> typeMatches quizSchema (JObject [])" by (simp add: quizSchema_def)
  have q: "generateQuiz emptyObjectService sources = Inr (Other (JObject []))" for sources
    by (simp add: emptyObjectService_def g)
  have c: "handleSendMessage_call emptyObjectService demoClock (pendingOf ?nb ?m Quiz demoClock)
           = Inr (modelMessage ''msg_1001'' ''Here is your quiz:'' QUIZ (Some (JsonData (JObject []))))"
    by (simp add: handleSendMessage_call_def pendingOf_def awaited_def stored_def q demoClock_def sn)
  have l: "logOf (handleSendMessage emptyObjectService ?m Quiz demoClock ?s) ''a''
     = [userMessage ?m 1000, modelMessage ''msg_1001'' ''Here is your quiz:'' QUIZ
          (Some (JsonData (JObject [])))]"
  proof -
    have u: "t_user demoClock = 1000" by (simp add: demoClock_def)
    show ?thesis
      by (simp add: handleSendMessage_accepted [OF demo_active(1,2)] c logOf_def demo_nb_id u)
        (simp add: demoState_def)
  qed
  have e: "filter (\<lambda>m. msg_contentType m = ERROR)
     (logOf (handleSendMessage emptyObjectService ?m Quiz demoClock ?s) ''a'') = []"
    unfolding l by (simp add: userMessage_def modelMessage_def)
  from g t q l e show ?thesis by blast
qed

subsection \<open>Quiz payloads\<close>

text \<open>
  C8, as the code has it. For an accepted \<^verbatim>\<open>quiz\<close> intent whose service call resolves, the
  \<^verbatim>\<open>QUIZ\<close> message stores the array that \<^verbatim>\<open>generateQuiz\<close> returned, as it is: the stored
  questions of the log are the earlier ones followed by the returned ones. So every stored
  question has its correct answer among its options exactly when that holds of the earlier
  stored questions and of every returned question; the handler makes no check of its own.
\<close>

theorem quiz_payload_stored_as_returned:
  "activeNotebook s = Some nb \<and> \<not> isLoading s \<and> generateQuiz svc (nb_sources nb) = Inr (Declared qs) \<longrightarrow>
     logOf (handleSendMessage svc message Quiz clock s) (nb_id nb)
       = logOf s (nb_id nb) @
         [userMessage message (t_user clock),
          modelMessage (''msg_'' @ show_nat (t_msgId clock + 1)) ''Here is your quiz:'' QUIZ
            (Some (QuizData qs))] \<and>
     storedQuizQuestions (logOf (handleSendMessage svc message Quiz clock s) (nb_id nb))
       = storedQuizQuestions (logOf s (nb_id nb)) @ qs \<and>
     (list_all quizValid (storedQuizQuestions (logOf (handleSendMessage svc message Quiz clock s) (nb_id nb)))
        \<longleftrightarrow> list_all quizValid (storedQuizQuestions (logOf s (nb_id nb))) \<and> list_all quizValid qs)"
proof (intro impI)
  assume "activeNotebook s = Some nb \<and> \<not> isLoading s \<and> generateQuiz svc (nb_sources nb) = Inr (Declared qs)"
  then have a: "activeNotebook s = Some nb" "\<not> isLoading s"
    and q: "generateQuiz svc (nb_sources nb) = Inr (Declared qs)" by simp_all
  have c: "handleSendMessage_call svc clock (pendingOf nb message Quiz clock) =
            Inr (modelMessage (''msg_'' @ show_nat (t_msgId clock + 1)) ''Here is your quiz:'' QUIZ
                   (Some (QuizData qs)))"
    by (simp add: handleSendMessage_call_def pendingOf_def awaited_def stored_def q)
  have l: "logOf (handleSendMessage svc message Quiz clock s) (nb_id nb)
       = logOf s (nb_id nb) @
         [userMessage message (t_user clock),
          modelMessage (''msg_'' @ show_nat (t_msgId clock + 1)) ''Here is your quiz:'' QUIZ
            (Some (QuizData qs))]"
    by (simp add: handleSendMessage_accepted [OF a] c logOf_def)
  have n: "storedQuizQuestions
         [userMessage message (t_user clock),
          modelMessage (''msg_'' @ show_nat (t_msgId clock + 1)) ''Here is your quiz:'' QUIZ
            (Some (QuizData qs))] = qs"
    by (simp add: storedQuizQuestions_def userMessage_def modelMessage_def)
  have st: "storedQuizQuestions (logOf (handleSendMessage svc message Quiz clock s) (nb_id nb))
       = storedQuizQuestions (logOf s (nb_id nb)) @ qs"
    unfolding l storedQuizQuestions_append n ..
  from l st show "logOf (handleSendMessage svc message Quiz clock s) (nb_id nb)
       = logOf s (nb_id nb) @
         [userMessage message (t_user clock),
          modelMessage (''msg_'' @ show_nat (t_msgId clock + 1)) ''Here is your quiz:'' QUIZ
            (Some (QuizData qs))] \<and>
     storedQuizQuestions (logOf (handleSendMessage svc message Quiz clock s) (nb_id nb))
       = storedQuizQuestions (logOf s (nb_id nb)) @ qs \<and>
     (list_all quizValid (storedQuizQuestions (logOf (handleSendMessage svc message Quiz clock s) (nb_id nb)))
        \<longleftrightarrow> list_all quizValid (storedQuizQuestions (logOf s (nb_id nb))) \<and> list_all quizValid qs)"
    by simp
qed

theorem quiz_payload_stored_as_returned_witness:
  "generateQuiz (quizService [goodQuestion]) [demoSource] = Inr (Declared [goodQuestion]) \<and>
   storedQuizQuestions (logOf (handleSendMessage (quizService [goodQuestion])
            ''Generate quiz for this notebook.'' Quiz demoClock
            (demoState [demoNotebook ''a'' [demoSource]] (Some ''a''))) ''a'')
     = [goodQuestion] \<and>
   length (logOf (handleSendMessage (quizService [goodQuestion])
            ''Generate quiz for this notebook.'' Quiz demoClock
            (demoState [demoNotebook ''a'' [demoSource]] (Some ''a''))) ''a'') = 2 \<and>
   quizValid goodQuestion"
proof -
  let ?s = "demoState [demoNotebook ''a'' [demoSource]] (Some ''a'')"
  let ?nb = "demoNotebook ''a'' [demoSource]"
  let ?m = "''Generate quiz for this notebook.''"
  have q: "generateQuiz (quizService [goodQuestion]) [demoSource] = Inr (Declared [goodQuestion])"
    by (simp add: quizService_def)
  have v: "nb_id ?nb = ''a''" "logOf ?s ''a'' = []" "nb_sources ?nb = [demoSource]"
    by (simp_all add: demoNotebook_def demo_active)
  have a: "activeNotebook ?s = Some ?nb \<and> \<not> isLoading ?s \<and>
           generateQuiz (quizService [goodQuestion]) (nb_sources ?nb) = Inr (Declared [goodQuestion])"
    by (simp add: demo_active q v)
  note inst = quiz_payload_stored_as_returned
         [of ?s ?nb "quizService [goodQuestion]" "[goodQuestion]" ?m demoClock, THEN mp, OF a,
          unfolded v]
  from inst [THEN conjunct2, THEN conjunct1]
  have "storedQuizQuestions (logOf (handleSendMessage (quizService [goodQuestion]) ?m Quiz
            demoClock ?s) ''a'') = [goodQuestion]"
    by (simp add: storedQuizQuestions_Nil)
  moreover from inst [THEN conjunct1]
  have "length (logOf (handleSendMessage (quizService [goodQuestion]) ?m Quiz
            demoClock ?s) ''a'') = 2"
    by simp
  moreover have "quizValid goodQuestion" by (simp add: quizValid_def goodQuestion_def)
  ultimately show ?thesis using q by blast
qed

text \<open>
  A returned question whose correct answer is not one of its options is stored all the same.
\<close>

theorem quiz_answer_outside_options_stored:
  "generateQuiz (quizService [badQuestion]) [demoSource] = Inr (Declared [badQuestion]) \<and>
   storedQuizQuestions (logOf (handleSendMessage (quizService [badQuestion])
            ''Generate quiz for this notebook.'' Quiz demoClock
            (demoState [demoNotebook ''a'' [demoSource]] (Some ''a''))) ''a'')
     = [badQuestion] \<and>
   correctAnswer badQuestion \<notin> set (options badQuestion)"
proof -
  let ?s = "demoState [demoNotebook ''a'' [demoSource]] (Some ''a'')"
  let ?nb = "demoNotebook ''a'' [demoSource]"
  let ?m = "''Generate quiz for this notebook.''"
  have q: "generateQuiz (quizService [badQuestion]) [demoSource] = Inr (Declared [badQuestion])"
    by (simp add: quizService_def)
  have c: "handleSendMessage_call (quizService [badQuestion]) demoClock
             (pendingOf ?nb ?m Quiz demoClock)
           = Inr (modelMessage (''msg_'' @ show_nat (t_msgId demoClock + 1)) ''Here is your quiz:''
                    QUIZ (Some (QuizData [badQuestion])))"
    by (simp add: handleSendMessage_call_def pendingOf_def awaited_def stored_def quizService_def)
  have "storedQuizQuestions (logOf (handleSendMessage (quizService [badQuestion]) ?m Quiz
            demoClock ?s) ''a'') = [badQuestion]"
    by (simp add: handleSendMessage_accepted [OF demo_active(1,2)] c logOf_def
        storedQuizQuestions_def userMessage_def modelMessage_def)
      (simp add: demoNotebook_def demoState_def)
  moreover have "correctAnswer badQuestion \<notin> set (options badQuestion)"
    by (simp add: badQuestion_def)
  ultimately show ?thesis using q by blast
qed

subsection \<open>The busy flag\<close>

lemma isLoading_handlers [simp]:
  "isLoading (handleCreateNotebook title now stamp s) = isLoading s"
  "isLoading (handleDeleteNotebook ident s) = isLoading s"
  "isLoading (handleAddSourceToNotebook rendered notebookId title content sty now s) = isLoading s"
  "isLoading (handleSaveItemToNotebook notebookId itemData now stamp s) = isLoading s"
  "isLoading (handleDeleteSavedItem notebookId itemId s) = isLoading s"
  "isLoading (ensureActiveEffect s) = isLoading s"
  "isLoading (updateChat i m s) = isLoading s"
  by (simp_all add: handleCreateNotebook_def handleDeleteNotebook_def
      handleAddSourceToNotebook_def handleSaveItemToNotebook_def handleDeleteSavedItem_def
      ensureActiveEffect_def updateChat_def Let_def split: list.splits)

lemma isLoading_settle [simp]: "\<not> isLoading (handleSendMessage_settle clock p outcome s)"
  by (simp add: handleSendMessage_settle_def)

lemma logOf_handlers [simp]:
  "logOf (handleAddSourceToNotebook rendered notebookId title content sty now s) k = logOf s k"
  "logOf (handleSaveItemToNotebook notebookId itemData now stamp s) k = logOf s k"
  "logOf (handleDeleteSavedItem notebookId itemId s) k = logOf s k"
  "logOf (ensureActiveEffect s) k = logOf s k"
  "logOf (s\<lparr>activeNotebookId := a\<rparr>) k = logOf s k"
  "logOf (s\<lparr>isCreatingNotebook := b\<rparr>) k = logOf s k"
  "logOf (s\<lparr>isDarkMode := b\<rparr>) k = logOf s k"
  by (simp_all add: logOf_def handleAddSourceToNotebook_def handleSaveItemToNotebook_def
      handleDeleteSavedItem_def ensureActiveEffect_def split: list.splits)

lemma logOf_resets:
  "logOf (handleCreateNotebook title now stamp s) k = logOf s k \<or>
   logOf (handleCreateNotebook title now stamp s) k = []"
  "logOf (handleDeleteNotebook ident s) k = logOf s k \<or> logOf (handleDeleteNotebook ident s) k = []"
  by (simp_all add: logOf_def handleCreateNotebook_def handleDeleteNotebook_def Let_def)

lemma logOf_settle:
  "logOf (handleSendMessage_settle clock p outcome s) k =
     logOf s k @ (if p_notebookId p = k then [settledMessage clock outcome] else [])"
  by (simp add: settle_eq settledMessage_def logOf_updateChat)

lemma begin_cases:
  "handleSendMessage_begin message ty clock s = (s, None)
   \<or> (\<exists>s' p. handleSendMessage_begin message ty clock s = (s', Some p) \<and> \<not> isLoading s \<and>
         isLoading s' \<and>
         (\<forall>k. logOf s' k = logOf s k @
                 (if p_notebookId p = k then [userMessage message (t_user clock)] else [])))"
  by (auto simp: handleSendMessage_begin_def pendingOf_def logOf_updateChat split: option.splits)

lemma exchangeLog_append:
  "length cs = length ss \<Longrightarrow>
   exchangeLog k (cs @ cs') (ss @ ss') = exchangeLog k cs ss @ exchangeLog k cs' ss'"
  by (induction cs ss rule: list_induct2) auto

lemma step_flightInv: "flightInv sys \<Longrightarrow> flightInv (step ev sys)"
proof (cases ev)
  case (SendMessage message ty clock)
  assume i: "flightInv sys"
  from begin_cases [of message ty clock "app sys"] show ?thesis
  proof (elim disjE conjE exE)
    assume "handleSendMessage_begin message ty clock (app sys) = (app sys, None)"
    with i SendMessage show ?thesis by (simp add: flightInv_def)
  next
    fix s' p
    assume "handleSendMessage_begin message ty clock (app sys) = (s', Some p)"
      "\<not> isLoading (app sys)" "isLoading s'"
    with i SendMessage show ?thesis by (simp add: flightInv_def)
  qed
next
  case (Settle k svc clock)
  assume i: "flightInv sys"
  show ?thesis
  proof (cases "k < length (inflight sys)")
    case True
    with i have "k = 0" and "\<exists>p. inflight sys = [p]"
      by (auto simp: flightInv_def length_Suc_conv le_Suc_eq)
    then obtain p where "inflight sys = [p]" by blast
    with i \<open>k = 0\<close> Settle show ?thesis by (simp add: flightInv_def Let_def)
  next
    case False
    with i Settle show ?thesis by simp
  qed
qed (simp_all add: flightInv_def)

lemma step_appends:
  assumes i: "flightInv sys" and n: "\<not> resets ev"
  shows "\<exists>ms. logOf (app (step ev sys)) k = logOf (app sys) k @ ms \<and>
              exchangeLog k (issued (step ev sys)) (settled (step ev sys))
                = exchangeLog k (issued sys) (settled sys) @ ms"
proof (cases ev)
  case (SendMessage message ty clock)
  from begin_cases [of message ty clock "app sys"] show ?thesis
  proof (elim disjE conjE exE)
    assume "handleSendMessage_begin message ty clock (app sys) = (app sys, None)"
    with SendMessage show ?thesis by simp
  next
    fix s' p
    assume b: "handleSendMessage_begin message ty clock (app sys) = (s', Some p)"
      and idle: "\<not> isLoading (app sys)"
      and l: "\<forall>k. logOf s' k = logOf (app sys) k @
                 (if p_notebookId p = k then [userMessage message (t_user clock)] else [])"
    from i idle have "inflight sys = []" by (simp add: flightInv_def)
    with i have len: "length (issued sys) = length (settled sys)"
      by (simp add: flightInv_def) (metis length_map)
    have "exchangeLog k (issued sys @ [(p, userMessage message (t_user clock))]) (settled sys @ [])
            = exchangeLog k (issued sys) (settled sys)
              @ exchangeLog k [(p, userMessage message (t_user clock))] []"
      by (rule exchangeLog_append [OF len])
    with SendMessage b l show ?thesis by simp
  qed
next
  case (Settle j svc clock)
  show ?thesis
  proof (cases "j < length (inflight sys)")
    case True
    with i have j: "j = 0" and "\<exists>p. inflight sys = [p]"
      by (auto simp: flightInv_def length_Suc_conv le_Suc_eq)
    then obtain p where p: "inflight sys = [p]" by blast
    with i have m: "map fst (issued sys) = map fst (settled sys) @ [p]"
      by (simp add: flightInv_def)
    then obtain cs c where cs: "issued sys = cs @ [c]"
      by (cases "issued sys" rule: rev_cases) auto
    with m have c: "fst c = p" and len: "length cs = length (settled sys)"
      by (auto dest: arg_cong [where f = length])
    obtain u where u: "c = (p, u)" using c by (cases c) auto
    let ?r = "settledMessage clock (handleSendMessage_call svc clock p)"
    have old: "exchangeLog k (cs @ [(p, u)]) (settled sys @ [])
                 = exchangeLog k cs (settled sys) @ exchangeLog k [(p, u)] []"
      by (rule exchangeLog_append [OF len])
    have new: "exchangeLog k (cs @ [(p, u)]) (settled sys @ [(p, ?r)])
                 = exchangeLog k cs (settled sys) @ exchangeLog k [(p, u)] [(p, ?r)]"
      by (rule exchangeLog_append [OF len])
    from old new Settle True j p cs u show ?thesis
      by (simp add: Let_def logOf_settle)
  next
    case False
    with Settle show ?thesis by simp
  qed
qed (use n in simp_all)

lemma step_resets:
  assumes "resets ev"
  shows "issued (step ev sys) = issued sys \<and> settled (step ev sys) = settled sys \<and>
         (logOf (app (step ev sys)) k = logOf (app sys) k \<or> logOf (app (step ev sys)) k = [])"
  using assms logOf_resets by (cases ev) simp_all

lemma step_logInv:
  assumes i: "flightInv sys" and l: "logInv s0 sys"
  shows "logInv s0 (step ev sys)"
  unfolding logInv_def
proof
  fix k
  from l have s: "suffix (logOf (app sys) k) (logOf s0 k @ exchangeLog k (issued sys) (settled sys))"
    by (simp add: logInv_def)
  show "suffix (logOf (app (step ev sys)) k)
          (logOf s0 k @ exchangeLog k (issued (step ev sys)) (settled (step ev sys)))"
  proof (cases "resets ev")
    case True
    from step_resets [OF True, of sys k] s show ?thesis by auto
  next
    case False
    from step_appends [OF i False, of k] obtain ms where
      "logOf (app (step ev sys)) k = logOf (app sys) k @ ms"
      "exchangeLog k (issued (step ev sys)) (settled (step ev sys))
         = exchangeLog k (issued sys) (settled sys) @ ms" by blast
    with s show ?thesis by (auto simp: suffix_def)
  qed
qed

lemma step_logEq:
  assumes i: "flightInv sys" and l: "logEq s0 sys" and n: "\<not> resets ev"
  shows "logEq s0 (step ev sys)"
  unfolding logEq_def
proof
  fix k
  from step_appends [OF i n, of k] obtain ms where
    "logOf (app (step ev sys)) k = logOf (app sys) k @ ms"
    "exchangeLog k (issued (step ev sys)) (settled (step ev sys))
       = exchangeLog k (issued sys) (settled sys) @ ms" by blast
  with l show "logOf (app (step ev sys)) k
                 = logOf s0 k @ exchangeLog k (issued (step ev sys)) (settled (step ev sys))"
    by (simp add: logEq_def)
qed

lemma run_invariants:
  "flightInv sys \<Longrightarrow> logInv s0 sys \<Longrightarrow>
   flightInv (run evs sys) \<and> logInv s0 (run evs sys)"
  unfolding run_def
  by (induction evs arbitrary: sys) (simp_all add: step_flightInv step_logInv)

lemma run_logEq:
  "flightInv sys \<Longrightarrow> logEq s0 sys \<Longrightarrow> \<not> list_ex resets evs \<Longrightarrow> logEq s0 (run evs sys)"
  unfolding run_def
  by (induction evs arbitrary: sys) (simp_all add: step_flightInv step_logEq)

lemma initial_invariants: "flightInv (initial s)" "logInv s (initial s)" "logEq s (initial s)"
  by (simp_all add: flightInv_def logInv_def logEq_def initial_def)

lemma activeNotebook_updates [simp]:
  "activeNotebook (updateChat i m s) = activeNotebook s"
  "activeNotebook (s\<lparr>isLoading := b\<rparr>) = activeNotebook s"
  "activeNotebook (handleSendMessage_settle clock p outcome s) = activeNotebook s"
  by (simp_all add: activeNotebook_def updateChat_def handleSendMessage_settle_def split: sum.splits)

lemma demoRun_lists:
  "issued (run demoRun (initial (demoState [demoNotebook ''a'' [demoSource]] (Some ''a''))))
     = [(pendingOf (demoNotebook ''a'' [demoSource]) ''Hello'' Chat demoClock, userMessage ''Hello'' 1000),
        (pendingOf (demoNotebook ''a'' [demoSource]) ''Again'' Chat laterClock, userMessage ''Again'' 2000)]"
  "settled (run demoRun (initial (demoState [demoNotebook ''a'' [demoSource]] (Some ''a''))))
     = [(pendingOf (demoNotebook ''a'' [demoSource]) ''Hello'' Chat demoClock, errorMessage 1007),
        (pendingOf (demoNotebook ''a'' [demoSource]) ''Again'' Chat laterClock, errorMessage 2007)]"
proof -
  let ?s = "demoState [demoNotebook ''a'' [demoSource]] (Some ''a'')"
  have i: "initial ?s = \<lparr>app = ?s, inflight = [], issued = [], settled = []\<rparr>"
    by (simp add: initial_def demoState_def)
  have act: "activeNotebook ?s = Some (demoNotebook ''a'' [demoSource])"
    by (rule demo_active(1))
  have idle: "\<not> isLoading ?s" by (rule demo_active(2))
  have b: "handleSendMessage_begin message ty clock s =
     (updateChat ''a'' (userMessage message (t_user clock)) (s\<lparr>isLoading := True\<rparr>),
      Some (pendingOf (demoNotebook ''a'' [demoSource]) message ty clock))"
    if "activeNotebook s = Some (demoNotebook ''a'' [demoSource])" "\<not> isLoading s"
    for message ty clock s
    using begin_accepted [OF that] by (simp add: demo_nb_id)
  have t: "t_user demoClock = 1000" "t_error demoClock = 1007" "t_user laterClock = 2000"
    "t_error laterClock = 2007"
    by (simp_all add: demoClock_def laterClock_def)
  show "issued (run demoRun (initial ?s))
     = [(pendingOf (demoNotebook ''a'' [demoSource]) ''Hello'' Chat demoClock, userMessage ''Hello'' 1000),
        (pendingOf (demoNotebook ''a'' [demoSource]) ''Again'' Chat laterClock, userMessage ''Again'' 2000)]"
    "settled (run demoRun (initial ?s))
     = [(pendingOf (demoNotebook ''a'' [demoSource]) ''Hello'' Chat demoClock, errorMessage 1007),
        (pendingOf (demoNotebook ''a'' [demoSource]) ''Again'' Chat laterClock, errorMessage 2007)]"
    by (simp_all add: run_def demoRun_def i b act idle failingService_call settledMessage_def t
        Let_def)
qed

text \<open>
  C4. In every run of the application from a start state, with any events in any order, at
  most one service call is in flight, and the busy flag is set exactly while one is. The
  calls settle in the order they were issued. The log of every notebook is a final segment
  of its start log followed by the messages of the calls made for the notebook, call by
  call in issue order, the user message of a call and then the message appended when it
  settled; it is the whole of that sequence in a run that neither creates nor deletes a
  notebook. While a call is in flight, a new intent, with any message and of any type,
  leaves the whole state unchanged and issues nothing, whichever notebook is active by then.
\<close>

theorem single_flight:
  "length (inflight (run evs (initial s))) \<le> 1 \<and>
   (isLoading (app (run evs (initial s))) \<longleftrightarrow> inflight (run evs (initial s)) \<noteq> []) \<and>
   map fst (issued (run evs (initial s)))
     = map fst (settled (run evs (initial s))) @ inflight (run evs (initial s)) \<and>
   suffix (logOf (app (run evs (initial s))) k)
     (logOf s k @ exchangeLog k (issued (run evs (initial s))) (settled (run evs (initial s)))) \<and>
   (\<not> list_ex resets evs \<longrightarrow>
      logOf (app (run evs (initial s))) k
        = logOf s k @ exchangeLog k (issued (run evs (initial s))) (settled (run evs (initial s)))) \<and>
   (inflight (run evs (initial s)) \<noteq> [] \<longrightarrow>
      step (SendMessage message ty clock) (run evs (initial s)) = run evs (initial s))"
proof -
  let ?sys = "run evs (initial s)"
  from run_invariants [OF initial_invariants(1,2)]
  have i: "flightInv ?sys" and l: "logInv s ?sys" by blast+
  have e: "logEq s ?sys" if "\<not> list_ex resets evs"
    by (rule run_logEq [OF initial_invariants(1,3) that])
  have g: "step (SendMessage message ty clock) ?sys = ?sys" if "inflight ?sys \<noteq> []"
  proof -
    from i that have "isLoading (app ?sys)" by (simp add: flightInv_def)
    then have "handleSendMessage_begin message ty clock (app ?sys) = (app ?sys, None)"
      by (simp add: begin_rejected)
    then show ?thesis by simp
  qed
  from i l e g show ?thesis by (simp add: flightInv_def logInv_def logEq_def)
qed

theorem single_flight_witness:
  "inflight (run [SendMessage ''Hello'' Chat demoClock, SelectNotebook ''b'']
      (initial (demoState [demoNotebook ''a'' [demoSource], demoNotebook ''b'' [demoSource]]
                  (Some ''a''))))
     = [pendingOf (demoNotebook ''a'' [demoSource]) ''Hello'' Chat demoClock] \<and>
   activeNotebookId (app (run [SendMessage ''Hello'' Chat demoClock, SelectNotebook ''b'']
      (initial (demoState [demoNotebook ''a'' [demoSource], demoNotebook ''b'' [demoSource]]
                  (Some ''a''))))) = Some ''b'' \<and>
   step (SendMessage ''Generate quiz for this notebook.'' Quiz demoClock)
     (run [SendMessage ''Hello'' Chat demoClock, SelectNotebook ''b'']
        (initial (demoState [demoNotebook ''a'' [demoSource], demoNotebook ''b'' [demoSource]]
                    (Some ''a''))))
     = run [SendMessage ''Hello'' Chat demoClock, SelectNotebook ''b'']
        (initial (demoState [demoNotebook ''a'' [demoSource], demoNotebook ''b'' [demoSource]]
                    (Some ''a''))) \<and>
   logOf (app (run demoRun (initial (demoState [demoNotebook ''a'' [demoSource]] (Some ''a'')))))
      ''a''
     = [userMessage ''Hello'' 1000, errorMessage 1007, userMessage ''Again'' 2000,
        errorMessage 2007]"
proof -
  let ?s = "demoState [demoNotebook ''a'' [demoSource], demoNotebook ''b'' [demoSource]] (Some ''a'')"
  let ?evs = "[SendMessage ''Hello'' Chat demoClock, SelectNotebook ''b'']"
  let ?t = "demoState [demoNotebook ''a'' [demoSource]] (Some ''a'')"
  have i: "initial ?s = \<lparr>app = ?s, inflight = [], issued = [], settled = []\<rparr>"
    by (simp add: initial_def demoState_def)
  have b: "handleSendMessage_begin ''Hello'' Chat demoClock ?s =
     (updateChat ''a'' (userMessage ''Hello'' (t_user demoClock)) (?s\<lparr>isLoading := True\<rparr>),
      Some (pendingOf (demoNotebook ''a'' [demoSource]) ''Hello'' Chat demoClock))"
  proof -
    have act: "activeNotebook ?s = Some (demoNotebook ''a'' [demoSource])"
      by (rule demo_active(1))
    have idle: "\<not> isLoading ?s" by (rule demo_active(2))
    from begin_accepted [OF act idle] show ?thesis by (simp add: demo_nb_id)
  qed
  have f: "inflight (run ?evs (initial ?s))
             = [pendingOf (demoNotebook ''a'' [demoSource]) ''Hello'' Chat demoClock]"
    and g: "activeNotebookId (app (run ?evs (initial ?s))) = Some ''b''"
    by (simp_all add: run_def i b)
  from f have ne: "inflight (run ?evs (initial ?s)) \<noteq> []" by simp
  from single_flight [of ?evs ?s _ "''Generate quiz for this notebook.''" Quiz demoClock] ne
  have h: "step (SendMessage ''Generate quiz for this notebook.'' Quiz demoClock)
          (run ?evs (initial ?s)) = run ?evs (initial ?s)"
    by blast
  have n: "\<not> list_ex resets demoRun" by (simp add: demoRun_def)
  have p: "p_notebookId (pendingOf (demoNotebook ''a'' [demoSource]) m ty c) = ''a''" for m ty c
    by (simp add: pendingOf_def demo_nb_id)
  from single_flight [of demoRun ?t "''a''"] n
  have "logOf (app (run demoRun (initial ?t))) ''a''
          = logOf ?t ''a'' @ exchangeLog ''a'' (issued (run demoRun (initial ?t)))
                                          (settled (run demoRun (initial ?t)))"
    by blast
  then have l: "logOf (app (run demoRun (initial ?t))) ''a''
     = [userMessage ''Hello'' 1000, errorMessage 1007, userMessage ''Again'' 2000,
        errorMessage 2007]"
    by (simp add: demoRun_lists demo_active(3) p)
  from f g h l show ?thesis by blast
qed

end
